theory Spec2Isabelle
  imports Main "HOL-Library.Word"
begin

unbundle bit_operations_syntax

section \<open>Machine types and build configuration\<close>

text \<open>
  The embedding follows \<^verbatim>\<open>libectp.c\<close>.  \<^verbatim>\<open>uint8_t\<close>, \<^verbatim>\<open>uint16_t\<close> and
  \<^verbatim>\<open>unsigned int\<close> are words of 8, 16 and 32 bits (\<^verbatim>\<open>unsigned int\<close> is 32 bits wide on
  the glibc targets the file is written for).  A region of memory is a list of bytes; a
  pointer into it is the list together with a byte offset.
\<close>

type_synonym uint8_t = "8 word"
type_synonym uint16_t = "16 word"
type_synonym uint = "32 word"
type_synonym mem = "uint8_t list"

text \<open>
  What the C preprocessor fixes when the file is compiled: the host byte order
  (\<^verbatim>\<open>__BYTE_ORDER == __BIG_ENDIAN\<close>) and the two message type codes \<^verbatim>\<open>ECTP_FWDMSG\<close> and
  \<^verbatim>\<open>ECTP_RPLYMSG\<close> of \<^verbatim>\<open>libectp.h\<close>.  The header is not part of the sources at hand and
  the specification names no value for the codes, so they are parameters of the model.
\<close>

record build_cfg =
  host_big_endian :: bool
  ECTP_FWDMSG :: uint16_t
  ECTP_RPLYMSG :: uint16_t

text \<open>
  Modelled from the spec: the size constants of \<^verbatim>\<open>libectp.h\<close>, which is missing.  The
  frame header is the 2-byte skip offset; a forward record is the 2-byte discriminator
  plus a 6-byte hardware address; the minimal reply record is the 2-byte discriminator
  plus the 2-byte receipt number.  \<^verbatim>\<open>ETH_ALEN\<close> is the 6 of \<^verbatim>\<open>net/ethernet.h\<close>.
\<close>

definition ECTP_FRAME_HDR_SZ :: uint where
  "ECTP_FRAME_HDR_SZ = 2"

definition ECTP_FWDMSG_SZ :: uint where
  "ECTP_FWDMSG_SZ = 8"

definition ECTP_REPLYMSG_MINSZ :: uint where
  "ECTP_REPLYMSG_MINSZ = 4"

definition ETH_ALEN :: nat where
  "ETH_ALEN = 6"

section \<open>Endian adapter\<close>

text \<open>\<^verbatim>\<open>bswap_16\<close> of \<^verbatim>\<open>byteswap.h\<close>: the two bytes of a 16-bit value exchanged.\<close>

definition bswap_16 :: "uint16_t \<Rightarrow> uint16_t" where
  "bswap_16 x = (push_bit 8 x) OR (drop_bit 8 x)"

definition ectp_htons :: "build_cfg \<Rightarrow> uint16_t \<Rightarrow> uint16_t" where
  "ectp_htons cfg i = (if host_big_endian cfg then bswap_16 i else i)"

definition ectp_ntohs :: "build_cfg \<Rightarrow> uint16_t \<Rightarrow> uint16_t" where
  "ectp_ntohs cfg i = (if host_big_endian cfg then bswap_16 i else i)"

section \<open>Memory\<close>

text \<open>
  The C functions write through raw pointers and check nothing.  In the model an access
  outside the region it is aimed at is a fault, so that every out-of-bounds access of the
  source is a visible result of the model and not an unspecified value.
\<close>

datatype fault = Read_overrun | Write_overrun | Overlap

text \<open>
  \<^verbatim>\<open>memcpy(&dest[off], src, n)\<close> and \<^verbatim>\<open>memset(s, c, n)\<close>.  The updated destination is
  returned.  Copying more bytes than the destination has from the offset on, or more
  than the source has, is a fault.
\<close>

definition memcpy :: "mem \<Rightarrow> nat \<Rightarrow> mem \<Rightarrow> nat \<Rightarrow> fault + mem" where
  "memcpy dest off src n =
     (if length dest < off + n then Inl Write_overrun
      else if length src < n then Inl Read_overrun
      else Inr (take off dest @ take n src @ drop (off + n) dest))"

definition memset :: "mem \<Rightarrow> uint8_t \<Rightarrow> nat \<Rightarrow> fault + mem" where
  "memset s c n =
     (if length s < n then Inl Write_overrun else Inr (replicate n c @ drop n s))"

text \<open>
  A \<^verbatim>\<open>uint16_t\<close> object in memory: the host lays its two bytes out most significant first
  when it is big-endian and least significant first when it is little-endian.
\<close>

definition u16_host_bytes :: "build_cfg \<Rightarrow> uint16_t \<Rightarrow> mem" where
  "u16_host_bytes cfg v =
     (if host_big_endian cfg then [ucast (drop_bit 8 v), ucast v]
      else [ucast v, ucast (drop_bit 8 v)])"

definition u16_of_host_bytes :: "build_cfg \<Rightarrow> uint8_t \<Rightarrow> uint8_t \<Rightarrow> uint16_t" where
  "u16_of_host_bytes cfg b0 b1 =
     (if host_big_endian cfg then (push_bit 8 (ucast b0)) OR (ucast b1)
      else (push_bit 8 (ucast b1)) OR (ucast b0))"

definition store_u16 :: "build_cfg \<Rightarrow> mem \<Rightarrow> nat \<Rightarrow> uint16_t \<Rightarrow> fault + mem" where
  "store_u16 cfg m off v = memcpy m off (u16_host_bytes cfg v) 2"

definition load_u16 :: "build_cfg \<Rightarrow> mem \<Rightarrow> nat \<Rightarrow> fault + uint16_t" where
  "load_u16 cfg m off =
     (if length m < off + 2 then Inl Read_overrun
      else Inr (u16_of_host_bytes cfg (m ! off) (m ! (off + 1))))"

text \<open>
  Modelled from the spec: the layout of \<^verbatim>\<open>struct ectp_frame\<close> and \<^verbatim>\<open>struct ectp_message\<close>
  of \<^verbatim>\<open>libectp.h\<close>, which is missing, as byte offsets of the fields from the start of the
  struct.  The wire table puts the skip offset at 0, the record discriminator at 0 of a
  record, the forward address and the receipt number at 2 and the reply data at 4.
\<close>

definition hdr_skipcount_off :: nat where "hdr_skipcount_off = 0"
definition hdr_func_code_off :: nat where "hdr_func_code_off = 0"
definition fwd_msg_fwdaddr_off :: nat where "fwd_msg_fwdaddr_off = 2"
definition rply_msg_rcpt_num_off :: nat where "rply_msg_rcpt_num_off = 2"
definition rply_msg_data_off :: nat where "rply_msg_data_off = 4"

text \<open>\<^verbatim>\<open>struct ether_addr\<close> of \<^verbatim>\<open>net/ethernet.h\<close>: six octets.\<close>

datatype ether_addr =
  Ether_addr uint8_t uint8_t uint8_t uint8_t uint8_t uint8_t

fun ether_addr_octet :: "ether_addr \<Rightarrow> mem" where
  "ether_addr_octet (Ether_addr a b c d e f) = [a, b, c, d, e, f]"

section \<open>Skip-chain accessor\<close>

text \<open>
  A \<^verbatim>\<open>struct ectp_frame *\<close> or \<^verbatim>\<open>struct ectp_message *\<close> is the region it points into and
  the byte offset of the struct in it.
\<close>

definition ectp_get_skipcount :: "build_cfg \<Rightarrow> mem \<Rightarrow> nat \<Rightarrow> fault + uint" where
  "ectp_get_skipcount cfg ectp_frme off =
     (case load_u16 cfg ectp_frme (off + hdr_skipcount_off) of
        Inl e \<Rightarrow> Inl e
      | Inr v \<Rightarrow> Inr (ucast (ectp_ntohs cfg v)))"

definition ectp_set_skipcount :: "build_cfg \<Rightarrow> mem \<Rightarrow> nat \<Rightarrow> uint \<Rightarrow> fault + mem" where
  "ectp_set_skipcount cfg ectp_frme off skipcount =
     store_u16 cfg ectp_frme (off + hdr_skipcount_off) (ectp_htons cfg (ucast skipcount))"

definition ectp_skipc_basicchk_ok :: "uint \<Rightarrow> uint \<Rightarrow> bool" where
  "ectp_skipc_basicchk_ok skipcount ectp_frme_len =
     (if skipcount AND (ECTP_FWDMSG_SZ - 1) \<noteq> 0 then False
      else if skipcount \<ge> ectp_frme_len then False
      else True)"

definition ectp_inc_skipcount :: "build_cfg \<Rightarrow> mem \<Rightarrow> nat \<Rightarrow> fault + mem" where
  "ectp_inc_skipcount cfg ectp_frme off =
     (case ectp_get_skipcount cfg ectp_frme off of
        Inl e \<Rightarrow> Inl e
      | Inr skipcount \<Rightarrow> ectp_set_skipcount cfg ectp_frme off (skipcount + ECTP_FWDMSG_SZ))"

section \<open>Message view\<close>

definition ectp_set_msg_type :: "build_cfg \<Rightarrow> mem \<Rightarrow> nat \<Rightarrow> uint16_t \<Rightarrow> fault + mem" where
  "ectp_set_msg_type cfg ectp_msg off msg_type =
     store_u16 cfg ectp_msg (off + hdr_func_code_off) (ectp_htons cfg msg_type)"

definition ectp_set_fwdaddr :: "mem \<Rightarrow> nat \<Rightarrow> mem \<Rightarrow> fault + mem" where
  "ectp_set_fwdaddr ectp_fwd_msg off fwdaddr =
     memcpy ectp_fwd_msg (off + fwd_msg_fwdaddr_off) fwdaddr ETH_ALEN"

definition ectp_set_fwdmsg :: "build_cfg \<Rightarrow> mem \<Rightarrow> nat \<Rightarrow> mem \<Rightarrow> fault + mem" where
  "ectp_set_fwdmsg cfg ectp_fwd_msg off fwdaddr =
     (case ectp_set_msg_type cfg ectp_fwd_msg off (ECTP_FWDMSG cfg) of
        Inl e \<Rightarrow> Inl e
      | Inr m \<Rightarrow> ectp_set_fwdaddr m off fwdaddr)"

definition ectp_set_rplymsg_rcpt_num :: "build_cfg \<Rightarrow> mem \<Rightarrow> nat \<Rightarrow> uint16_t \<Rightarrow> fault + mem" where
  "ectp_set_rplymsg_rcpt_num cfg ectp_rply_msg off rcpt_num =
     store_u16 cfg ectp_rply_msg (off + rply_msg_rcpt_num_off) rcpt_num"

definition ectp_set_rplymsg_hdr :: "build_cfg \<Rightarrow> mem \<Rightarrow> nat \<Rightarrow> uint16_t \<Rightarrow> fault + mem" where
  "ectp_set_rplymsg_hdr cfg ectp_rply_msg off rcpt_num =
     (case ectp_set_msg_type cfg ectp_rply_msg off (ECTP_RPLYMSG cfg) of
        Inl e \<Rightarrow> Inl e
      | Inr m \<Rightarrow> ectp_set_rplymsg_rcpt_num cfg m off rcpt_num)"

definition ectp_set_rplymsg_data :: "mem \<Rightarrow> nat \<Rightarrow> mem \<Rightarrow> uint \<Rightarrow> fault + mem" where
  "ectp_set_rplymsg_data ectp_rply_msg off data data_size =
     memcpy ectp_rply_msg (off + rply_msg_data_off) data (unat data_size)"

section \<open>Frame sizer\<close>

definition ectp_calc_frame_size :: "uint \<Rightarrow> uint \<Rightarrow> uint" where
  "ectp_calc_frame_size num_fwdmsgs payload_size =
     ECTP_FRAME_HDR_SZ + (num_fwdmsgs * ECTP_FWDMSG_SZ) + ECTP_REPLYMSG_MINSZ + payload_size"

section \<open>Frame builder\<close>

text \<open>
  The builder is embedded twice.  This section has it on a destination region of its
  own, with the two source arrays passed as their contents: that is the C function on
  the calls whose source arrays lie outside \<^verbatim>\<open>frame_buf\<close>.  The next section has it in one
  memory, where \<^verbatim>\<open>fwdaddrs\<close> and \<^verbatim>\<open>data\<close> are pointers that may point into \<^verbatim>\<open>frame_buf\<close>; the
  two are proved to agree when they do not.

  Here \<^verbatim>\<open>fwdaddrs\<close> is an array of \<^verbatim>\<open>struct ether_addr\<close>; the pointer \<^verbatim>\<open>fwdaddr\<close> that walks
  it is an index, and the cast \<^verbatim>\<open>(uint8_t *)fwdaddr\<close> yields the six octets at that index.
\<close>

definition fwdaddr_deref :: "ether_addr list \<Rightarrow> nat \<Rightarrow> fault + mem" where
  "fwdaddr_deref fwdaddrs fwdaddr =
     (if fwdaddr < length fwdaddrs then Inr (ether_addr_octet (fwdaddrs ! fwdaddr))
      else Inl Read_overrun)"

function fwdmsg_loop ::
  "build_cfg \<Rightarrow> ether_addr list \<Rightarrow> uint \<Rightarrow> mem \<Rightarrow> mem \<Rightarrow> nat \<Rightarrow> uint \<Rightarrow> uint \<Rightarrow> uint \<Rightarrow>
     fault + (mem \<times> mem \<times> uint \<times> uint)" where
  "fwdmsg_loop cfg fwdaddrs num_fwdaddrs frame_buf tmp_buf fwdaddr frame_idx buf_bytes_left i =
     (if i \<le> num_fwdaddrs \<and> buf_bytes_left \<noteq> 0 then
        (if buf_bytes_left \<ge> ECTP_FWDMSG_SZ then
           (case fwdaddr_deref fwdaddrs fwdaddr of
              Inl e \<Rightarrow> Inl e
            | Inr a \<Rightarrow>
               (case ectp_set_fwdmsg cfg frame_buf (unat frame_idx) a of
                  Inl e \<Rightarrow> Inl e
                | Inr frame_buf' \<Rightarrow>
                    fwdmsg_loop cfg fwdaddrs num_fwdaddrs frame_buf' tmp_buf (fwdaddr + 1)
                      (frame_idx + ECTP_FWDMSG_SZ) (buf_bytes_left - ECTP_FWDMSG_SZ) (i + 1)))
         else
           (case fwdaddr_deref fwdaddrs fwdaddr of
              Inl e \<Rightarrow> Inl e
            | Inr a \<Rightarrow>
               (case ectp_set_fwdmsg cfg tmp_buf 0 a of
                  Inl e \<Rightarrow> Inl e
                | Inr tmp_buf' \<Rightarrow>
                   (case memcpy frame_buf (unat frame_idx) tmp_buf' (unat buf_bytes_left) of
                      Inl e \<Rightarrow> Inl e
                    | Inr frame_buf' \<Rightarrow>
                        fwdmsg_loop cfg fwdaddrs num_fwdaddrs frame_buf' tmp_buf' fwdaddr
                          frame_idx 0 i))))
      else Inr (frame_buf, tmp_buf, frame_idx, buf_bytes_left))"
  by pat_completeness auto
termination
  by (relation "measure (\<lambda>(cfg, fwdaddrs, num_fwdaddrs, frame_buf, tmp_buf, fwdaddr, frame_idx,
        buf_bytes_left, i). unat buf_bytes_left)")
     (auto simp add: ECTP_FWDMSG_SZ_def unat_sub word_le_nat_alt unat_gt_0)

declare fwdmsg_loop.simps [simp del]

text \<open>
  The part of \<^verbatim>\<open>ectp_build_frame\<close> after the forward messages: the reply message header
  and the reply message data.  \<^verbatim>\<open>frame_idx\<close> is not advanced past the reply header; the
  data is written through the \<^verbatim>\<open>rply_msg.data\<close> field of the same message.
\<close>

definition build_rplymsg ::
  "build_cfg \<Rightarrow> uint16_t \<Rightarrow> mem \<Rightarrow> uint \<Rightarrow> mem \<Rightarrow> mem \<Rightarrow> uint \<Rightarrow> uint \<Rightarrow> fault + mem" where
  "build_rplymsg cfg rcpt_num data data_size frame_buf tmp_buf frame_idx buf_bytes_left =
     (if buf_bytes_left > ECTP_REPLYMSG_MINSZ then
        (case ectp_set_rplymsg_hdr cfg frame_buf (unat frame_idx) rcpt_num of
           Inl e \<Rightarrow> Inl e
         | Inr frame_buf' \<Rightarrow>
            (let buf_bytes_left' = buf_bytes_left - ECTP_REPLYMSG_MINSZ in
             if buf_bytes_left' \<ge> data_size then
               ectp_set_rplymsg_data frame_buf' (unat frame_idx) data data_size
             else if buf_bytes_left' > 0 then
               ectp_set_rplymsg_data frame_buf' (unat frame_idx) data buf_bytes_left'
             else Inr frame_buf'))
      else
        (case ectp_set_rplymsg_hdr cfg tmp_buf 0 rcpt_num of
           Inl e \<Rightarrow> Inl e
         | Inr tmp_buf' \<Rightarrow> memcpy frame_buf (unat frame_idx) tmp_buf' (unat buf_bytes_left)))"

text \<open>
  \<^verbatim>\<open>ectp_build_frame\<close>.  The arguments are those of the C function, in its order, after
  the build configuration and \<open>tmp_buf\<close>, the content the uninitialised local array
  \<^verbatim>\<open>uint8_t tmp_buf[ECTP_FWDMSG_SZ]\<close> happens to have on entry.  The result is the content
  of \<^verbatim>\<open>frame_buf\<close> on return.
\<close>

definition ectp_build_frame ::
  "build_cfg \<Rightarrow> mem \<Rightarrow> uint \<Rightarrow> ether_addr list \<Rightarrow> uint \<Rightarrow> uint16_t \<Rightarrow> mem \<Rightarrow> uint \<Rightarrow>
     mem \<Rightarrow> uint \<Rightarrow> uint8_t \<Rightarrow> fault + mem" where
  "ectp_build_frame cfg tmp_buf skipcount fwdaddrs num_fwdaddrs rcpt_num data data_size
       frame_buf frame_buf_size filler =
     (let frame_idx = (0 :: uint); buf_bytes_left = frame_buf_size in
      if frame_buf_size = 0 then Inr frame_buf
      else
        (case memset frame_buf filler (unat frame_buf_size) of
           Inl e \<Rightarrow> Inl e
         | Inr frame_buf0 \<Rightarrow>
            (if buf_bytes_left > ECTP_FRAME_HDR_SZ then
               (case ectp_set_skipcount cfg frame_buf0 (unat frame_idx) skipcount of
                  Inl e \<Rightarrow> Inl e
                | Inr frame_buf1 \<Rightarrow>
                   (case fwdmsg_loop cfg fwdaddrs num_fwdaddrs frame_buf1 tmp_buf 0
                           (frame_idx + ECTP_FRAME_HDR_SZ) (buf_bytes_left - ECTP_FRAME_HDR_SZ)
                           1 of
                      Inl e \<Rightarrow> Inl e
                    | Inr (frame_buf2, tmp_buf2, frame_idx2, buf_bytes_left2) \<Rightarrow>
                        if buf_bytes_left2 = 0 then Inr frame_buf2
                        else build_rplymsg cfg rcpt_num data data_size frame_buf2 tmp_buf2
                               frame_idx2 buf_bytes_left2))
             else
               (case ectp_set_skipcount cfg tmp_buf 0 skipcount of
                  Inl e \<Rightarrow> Inl e
                | Inr tmp_buf' \<Rightarrow> memcpy frame_buf0 0 tmp_buf' (unat frame_buf_size)))))"

section \<open>Frame builder in one memory\<close>

text \<open>
  One memory holds \<^verbatim>\<open>frame_buf\<close> and the source arrays; \<^verbatim>\<open>frame_buf\<close>, \<^verbatim>\<open>fwdaddrs\<close> and \<^verbatim>\<open>data\<close>
  are addresses in it, and every copy reads the memory as it is at that moment.  So a
  source array that lies inside \<^verbatim>\<open>frame_buf\<close> is read after the \<^verbatim>\<open>memset\<close> and the earlier
  field writes have changed it.  \<^verbatim>\<open>tmp_buf\<close> is a local array and stays a region of its
  own.

  \<^verbatim>\<open>memcpy(&m[dest], &m[src], n)\<close> and \<^verbatim>\<open>memset(&m[s], c, n)\<close> inside the memory; copying
  between regions that overlap is undefined in C and a fault here.
\<close>

definition memcpy_at :: "mem \<Rightarrow> nat \<Rightarrow> nat \<Rightarrow> nat \<Rightarrow> fault + mem" where
  "memcpy_at m dest src n =
     (if length m < dest + n then Inl Write_overrun
      else if length m < src + n then Inl Read_overrun
      else if dest < src + n \<and> src < dest + n then Inl Overlap
      else Inr (take dest m @ take n (drop src m) @ drop (dest + n) m))"

definition memset_at :: "mem \<Rightarrow> nat \<Rightarrow> uint8_t \<Rightarrow> nat \<Rightarrow> fault + mem" where
  "memset_at m s c n =
     (if length m < s + n then Inl Write_overrun
      else Inr (take s m @ replicate n c @ drop (s + n) m))"

definition ectp_set_fwdaddr_at :: "mem \<Rightarrow> nat \<Rightarrow> nat \<Rightarrow> fault + mem" where
  "ectp_set_fwdaddr_at m ectp_fwd_msg fwdaddr =
     memcpy_at m (ectp_fwd_msg + fwd_msg_fwdaddr_off) fwdaddr ETH_ALEN"

definition ectp_set_fwdmsg_at :: "build_cfg \<Rightarrow> mem \<Rightarrow> nat \<Rightarrow> nat \<Rightarrow> fault + mem" where
  "ectp_set_fwdmsg_at cfg m ectp_fwd_msg fwdaddr =
     (case ectp_set_msg_type cfg m ectp_fwd_msg (ECTP_FWDMSG cfg) of
        Inl e \<Rightarrow> Inl e
      | Inr m' \<Rightarrow> ectp_set_fwdaddr_at m' ectp_fwd_msg fwdaddr)"

definition ectp_set_rplymsg_data_at :: "mem \<Rightarrow> nat \<Rightarrow> nat \<Rightarrow> uint \<Rightarrow> fault + mem" where
  "ectp_set_rplymsg_data_at m ectp_rply_msg data data_size =
     memcpy_at m (ectp_rply_msg + rply_msg_data_off) data (unat data_size)"

text \<open>
  The forward-message loop.  \<^verbatim>\<open>&frame_buf[frame_idx]\<close> is the address
  \<open>frame_buf + unat frame_idx\<close>; \<^verbatim>\<open>fwdaddr++\<close> moves the pointer on by the six bytes of a
  \<^verbatim>\<open>struct ether_addr\<close>.  Where the record is built in \<^verbatim>\<open>tmp_buf\<close>, the address is copied
  out of the memory from \<^verbatim>\<open>fwdaddr\<close> on.
\<close>

function fwdmsg_loop_at ::
  "build_cfg \<Rightarrow> uint \<Rightarrow> nat \<Rightarrow> mem \<Rightarrow> mem \<Rightarrow> nat \<Rightarrow> uint \<Rightarrow> uint \<Rightarrow> uint \<Rightarrow>
     fault + (mem \<times> mem \<times> uint \<times> uint)" where
  "fwdmsg_loop_at cfg num_fwdaddrs frame_buf m tmp_buf fwdaddr frame_idx buf_bytes_left i =
     (if i \<le> num_fwdaddrs \<and> buf_bytes_left \<noteq> 0 then
        (if buf_bytes_left \<ge> ECTP_FWDMSG_SZ then
           (case ectp_set_fwdmsg_at cfg m (frame_buf + unat frame_idx) fwdaddr of
              Inl e \<Rightarrow> Inl e
            | Inr m' \<Rightarrow>
                fwdmsg_loop_at cfg num_fwdaddrs frame_buf m' tmp_buf (fwdaddr + ETH_ALEN)
                  (frame_idx + ECTP_FWDMSG_SZ) (buf_bytes_left - ECTP_FWDMSG_SZ) (i + 1))
         else
           (case ectp_set_fwdmsg cfg tmp_buf 0 (drop fwdaddr m) of
              Inl e \<Rightarrow> Inl e
            | Inr tmp_buf' \<Rightarrow>
               (case memcpy m (frame_buf + unat frame_idx) tmp_buf' (unat buf_bytes_left) of
                  Inl e \<Rightarrow> Inl e
                | Inr m' \<Rightarrow>
                    fwdmsg_loop_at cfg num_fwdaddrs frame_buf m' tmp_buf' fwdaddr frame_idx 0 i)))
      else Inr (m, tmp_buf, frame_idx, buf_bytes_left))"
  by pat_completeness auto
termination
  by (relation "measure (\<lambda>(cfg, num_fwdaddrs, frame_buf, m, tmp_buf, fwdaddr, frame_idx,
        buf_bytes_left, i). unat buf_bytes_left)")
     (auto simp add: ECTP_FWDMSG_SZ_def unat_sub word_le_nat_alt unat_gt_0)

declare fwdmsg_loop_at.simps [simp del]

definition build_rplymsg_at ::
  "build_cfg \<Rightarrow> uint16_t \<Rightarrow> nat \<Rightarrow> uint \<Rightarrow> nat \<Rightarrow> mem \<Rightarrow> mem \<Rightarrow> uint \<Rightarrow> uint \<Rightarrow> fault + mem" where
  "build_rplymsg_at cfg rcpt_num data data_size frame_buf m tmp_buf frame_idx buf_bytes_left =
     (if buf_bytes_left > ECTP_REPLYMSG_MINSZ then
        (case ectp_set_rplymsg_hdr cfg m (frame_buf + unat frame_idx) rcpt_num of
           Inl e \<Rightarrow> Inl e
         | Inr m' \<Rightarrow>
            (let buf_bytes_left' = buf_bytes_left - ECTP_REPLYMSG_MINSZ in
             if buf_bytes_left' \<ge> data_size then
               ectp_set_rplymsg_data_at m' (frame_buf + unat frame_idx) data data_size
             else if buf_bytes_left' > 0 then
               ectp_set_rplymsg_data_at m' (frame_buf + unat frame_idx) data buf_bytes_left'
             else Inr m'))
      else
        (case ectp_set_rplymsg_hdr cfg tmp_buf 0 rcpt_num of
           Inl e \<Rightarrow> Inl e
         | Inr tmp_buf' \<Rightarrow>
             memcpy m (frame_buf + unat frame_idx) tmp_buf' (unat buf_bytes_left)))"

text \<open>
  \<^verbatim>\<open>ectp_build_frame\<close> in one memory \<open>m\<close>: the arguments of the C function in its order,
  \<^verbatim>\<open>fwdaddrs\<close>, \<^verbatim>\<open>data\<close> and \<^verbatim>\<open>frame_buf\<close> being addresses in \<open>m\<close>.  The result is the memory on
  return.
\<close>

definition ectp_build_frame_at ::
  "build_cfg \<Rightarrow> mem \<Rightarrow> uint \<Rightarrow> nat \<Rightarrow> uint \<Rightarrow> uint16_t \<Rightarrow> nat \<Rightarrow> uint \<Rightarrow>
     mem \<Rightarrow> nat \<Rightarrow> uint \<Rightarrow> uint8_t \<Rightarrow> fault + mem" where
  "ectp_build_frame_at cfg tmp_buf skipcount fwdaddrs num_fwdaddrs rcpt_num data data_size
       m frame_buf frame_buf_size filler =
     (let frame_idx = (0 :: uint); buf_bytes_left = frame_buf_size in
      if frame_buf_size = 0 then Inr m
      else
        (case memset_at m frame_buf filler (unat frame_buf_size) of
           Inl e \<Rightarrow> Inl e
         | Inr m0 \<Rightarrow>
            (if buf_bytes_left > ECTP_FRAME_HDR_SZ then
               (case ectp_set_skipcount cfg m0 (frame_buf + unat frame_idx) skipcount of
                  Inl e \<Rightarrow> Inl e
                | Inr m1 \<Rightarrow>
                   (case fwdmsg_loop_at cfg num_fwdaddrs frame_buf m1 tmp_buf fwdaddrs
                           (frame_idx + ECTP_FRAME_HDR_SZ) (buf_bytes_left - ECTP_FRAME_HDR_SZ)
                           1 of
                      Inl e \<Rightarrow> Inl e
                    | Inr (m2, tmp_buf2, frame_idx2, buf_bytes_left2) \<Rightarrow>
                        if buf_bytes_left2 = 0 then Inr m2
                        else build_rplymsg_at cfg rcpt_num data data_size frame_buf m2 tmp_buf2
                               frame_idx2 buf_bytes_left2))
             else
               (case ectp_set_skipcount cfg tmp_buf 0 skipcount of
                  Inl e \<Rightarrow> Inl e
                | Inr tmp_buf' \<Rightarrow> memcpy m0 frame_buf tmp_buf' (unat frame_buf_size)))))"

text \<open>The region \<open>[s, s + k)\<close> lies outside the region \<open>[a, a + n)\<close>.\<close>

definition outside :: "nat \<Rightarrow> nat \<Rightarrow> nat \<Rightarrow> nat \<Rightarrow> bool" where
  "outside s k a n = (s + k \<le> a \<or> a + n \<le> s)"

section \<open>The logical frame\<close>

text \<open>
  The frame as the specification describes it, field after field: the skip-offset
  header, each forward record in array order, the reply header with the receipt number,
  the reply data.  The builder is compared with it below.
\<close>

definition skipcount_field :: "build_cfg \<Rightarrow> uint \<Rightarrow> mem" where
  "skipcount_field cfg skipcount = u16_host_bytes cfg (ectp_htons cfg (ucast skipcount))"

definition fwdmsg_field :: "build_cfg \<Rightarrow> ether_addr \<Rightarrow> mem" where
  "fwdmsg_field cfg a =
     u16_host_bytes cfg (ectp_htons cfg (ECTP_FWDMSG cfg)) @ ether_addr_octet a"

definition rplymsg_hdr_field :: "build_cfg \<Rightarrow> uint16_t \<Rightarrow> mem" where
  "rplymsg_hdr_field cfg rcpt_num =
     u16_host_bytes cfg (ectp_htons cfg (ECTP_RPLYMSG cfg)) @ u16_host_bytes cfg rcpt_num"

definition logical_frame ::
  "build_cfg \<Rightarrow> uint \<Rightarrow> ether_addr list \<Rightarrow> uint \<Rightarrow> uint16_t \<Rightarrow> mem \<Rightarrow> uint \<Rightarrow> mem" where
  "logical_frame cfg skipcount fwdaddrs num_fwdaddrs rcpt_num data data_size =
     skipcount_field cfg skipcount
     @ concat (map (fwdmsg_field cfg) (take (unat num_fwdaddrs) fwdaddrs))
     @ rplymsg_hdr_field cfg rcpt_num
     @ take (unat data_size) data"

text \<open>A frame image cut or padded with the filler byte to exactly \<open>n\<close> bytes.\<close>

definition pad_to :: "nat \<Rightarrow> uint8_t \<Rightarrow> mem \<Rightarrow> mem" where
  "pad_to n filler bs = take n (bs @ replicate n filler)"

text \<open>
  The source arrays as the builder in one memory finds them on entry: the
  \<^verbatim>\<open>struct ether_addr\<close> at an address, and the array of \<open>k\<close> of them from an address on.
\<close>

definition ether_addr_at :: "mem \<Rightarrow> nat \<Rightarrow> ether_addr" where
  "ether_addr_at m p =
     Ether_addr (m ! p) (m ! (p + 1)) (m ! (p + 2)) (m ! (p + 3)) (m ! (p + 4)) (m ! (p + 5))"

definition ether_addrs_at :: "mem \<Rightarrow> nat \<Rightarrow> nat \<Rightarrow> ether_addr list" where
  "ether_addrs_at m p k = map (\<lambda>j. ether_addr_at m (p + ETH_ALEN * j)) [0..<k]"

text \<open>The forward records still to be written when the pointer stands at index \<open>j\<close>.\<close>

definition fwd_rest :: "build_cfg \<Rightarrow> ether_addr list \<Rightarrow> uint \<Rightarrow> nat \<Rightarrow> mem" where
  "fwd_rest cfg fwdaddrs num_fwdaddrs j =
     concat (map (fwdmsg_field cfg) (drop j (take (unat num_fwdaddrs) fwdaddrs)))"

section \<open>Endian adapter: results\<close>

lemma bswap_16_involution: "bswap_16 (bswap_16 x) = x"
  unfolding bswap_16_def
  by (rule bit_word_eqI) (auto simp add: bit_simps)

lemma ntohs_htons_id: "ectp_ntohs cfg (ectp_htons cfg x) = x"
  by (simp add: ectp_ntohs_def ectp_htons_def bswap_16_involution)

text \<open>
  Claim C8.  Endian adapter round trip: converting a 16-bit value to wire order with
  \<^verbatim>\<open>ectp_htons\<close> and back with \<^verbatim>\<open>ectp_ntohs\<close> gives the value again, on a big-endian
  host and on a little-endian host alike.
\<close>

theorem ectp_ntohs_htons:
  "ectp_ntohs cfg (ectp_htons cfg x) = x"
proof (cases "host_big_endian cfg")
  case True
  then show ?thesis
    by (simp add: ectp_ntohs_def ectp_htons_def bswap_16_involution)
next
  case False
  then show ?thesis
    by (simp add: ectp_ntohs_def ectp_htons_def)
qed

text \<open>
  Claim C4, as stated: every 16-bit wire field is big-endian, that is, the byte of
  \<^verbatim>\<open>ectp_htons x\<close> at the lower address is the most significant byte of \<open>x\<close> whatever the
  host byte order.  It fails on both hosts: for \<open>x = 0x0102\<close> the byte at the lower
  address is \<open>0x02\<close>.
\<close>

theorem wire_order_not_big_endian:
  "u16_host_bytes \<lparr>host_big_endian = False, ECTP_FWDMSG = 2, ECTP_RPLYMSG = 1\<rparr>
      (ectp_htons \<lparr>host_big_endian = False, ECTP_FWDMSG = 2, ECTP_RPLYMSG = 1\<rparr> 0x0102) ! 0
     \<noteq> ucast (drop_bit 8 (0x0102 :: uint16_t)) \<and>
   u16_host_bytes \<lparr>host_big_endian = True, ECTP_FWDMSG = 2, ECTP_RPLYMSG = 1\<rparr>
      (ectp_htons \<lparr>host_big_endian = True, ECTP_FWDMSG = 2, ECTP_RPLYMSG = 1\<rparr> 0x0102) ! 0
     \<noteq> ucast (drop_bit 8 (0x0102 :: uint16_t))"
  by (simp add: u16_host_bytes_def ectp_htons_def bswap_16_def)

text \<open>
  Claim C4, amended: the 16-bit wire fields are little-endian.  Whatever the host byte
  order, the bytes of \<^verbatim>\<open>ectp_htons x\<close> in memory are the least significant byte of \<open>x\<close> at
  the lower address and the most significant byte at the higher one, and \<^verbatim>\<open>ectp_ntohs\<close>
  of the value read back from these two bytes is \<open>x\<close>.
\<close>

theorem wire_order_little_endian:
  "u16_host_bytes cfg (ectp_htons cfg x) = [ucast x, ucast (drop_bit 8 x)] \<and>
   ectp_ntohs cfg (u16_of_host_bytes cfg (ucast x) (ucast (drop_bit 8 x))) = x"
proof
  show "u16_host_bytes cfg (ectp_htons cfg x) = [ucast x, ucast (drop_bit 8 x)]"
    unfolding u16_host_bytes_def ectp_htons_def bswap_16_def
    by (auto intro!: bit_word_eqI simp add: bit_simps)
  show "ectp_ntohs cfg (u16_of_host_bytes cfg (ucast x) (ucast (drop_bit 8 x))) = x"
    unfolding u16_of_host_bytes_def ectp_ntohs_def bswap_16_def
    by (auto intro!: bit_word_eqI simp add: bit_simps)
qed

section \<open>Memory: results\<close>

lemma length_u16_host_bytes: "length (u16_host_bytes cfg v) = 2"
  by (simp add: u16_host_bytes_def)

lemma u16_of_host_bytes_inverse:
  "u16_of_host_bytes cfg (u16_host_bytes cfg v ! 0) (u16_host_bytes cfg v ! Suc 0) = v"
  unfolding u16_of_host_bytes_def u16_host_bytes_def
  by (auto intro!: bit_word_eqI simp add: bit_simps)

lemma memcpy_ok:
  "off + n \<le> length dest \<Longrightarrow> n \<le> length src \<Longrightarrow>
   memcpy dest off src n = Inr (take off dest @ take n src @ drop (off + n) dest)"
  by (simp add: memcpy_def)

lemma store_u16_ok:
  "off + 2 \<le> length m \<Longrightarrow>
   store_u16 cfg m off v = Inr (take off m @ u16_host_bytes cfg v @ drop (off + 2) m)"
  using memcpy_ok [of off 2 m "u16_host_bytes cfg v"]
  by (simp add: store_u16_def length_u16_host_bytes)

lemma load_u16_at:
  "length pre = off \<Longrightarrow> load_u16 cfg (pre @ u16_host_bytes cfg v @ post) off = Inr v"
  by (simp add: load_u16_def length_u16_host_bytes nth_append u16_of_host_bytes_inverse)

lemma load_store_u16:
  "off + 2 \<le> length m \<Longrightarrow> store_u16 cfg m off v = Inr m' \<Longrightarrow> load_u16 cfg m' off = Inr v"
  using load_u16_at [of "take off m" off cfg v "drop (off + 2) m"]
  by (simp add: store_u16_ok)

lemma drop_drop_eq: "a + b = c \<Longrightarrow> drop a (drop b m) = drop c m"
  by (simp only: drop_drop)

section \<open>Skip-chain accessor: results\<close>

lemma and_mask_dvd:
  "(x AND (ECTP_FWDMSG_SZ - 1) = 0) = (unat ECTP_FWDMSG_SZ dvd unat x)"
proof -
  have "x AND 7 = take_bit 3 x"
    using take_bit_eq_mask [of 3 x] by (simp add: mask_eq_exp_minus_1)
  moreover have "(take_bit 3 x = 0) = (2 ^ 3 dvd unat x)"
  proof -
    have "(take_bit 3 x = 0) = (unat (take_bit 3 x) = 0)"
      by (simp add: unat_eq_0)
    also have "\<dots> = (unat x mod 2 ^ 3 = 0)"
      by (simp add: unsigned_take_bit_eq take_bit_eq_mod unat_mod)
    also have "\<dots> = (2 ^ 3 dvd unat x)"
      by (simp only: mod_eq_0_iff_dvd)
    finally show ?thesis .
  qed
  ultimately show ?thesis by (simp add: ECTP_FWDMSG_SZ_def)
qed

text \<open>
  Claim C3.  For every offset and every frame length, \<^verbatim>\<open>ectp_skipc_basicchk_ok\<close> returns
  true exactly when the offset is a multiple of \<^verbatim>\<open>ECTP_FWDMSG_SZ\<close> and is less than the
  frame length; there is no precondition on either argument.
\<close>

theorem ectp_skipc_basicchk_ok_iff:
  "ectp_skipc_basicchk_ok offset frame_len =
     (unat ECTP_FWDMSG_SZ dvd unat offset \<and> offset < frame_len)"
  by (auto simp add: ectp_skipc_basicchk_ok_def and_mask_dvd)

lemma set_get_skipcount:
  assumes "off + 2 \<le> length f"
  shows "\<exists>f'. ectp_set_skipcount cfg f off v = Inr f' \<and> length f' = length f \<and>
           ectp_get_skipcount cfg f' off = Inr (ucast (ucast v :: uint16_t))"
proof -
  from assms obtain f' where s: "store_u16 cfg f off (ectp_htons cfg (ucast v)) = Inr f'"
    and l: "length f' = length f"
    by (simp add: store_u16_ok length_u16_host_bytes)
  from assms s have "load_u16 cfg f' off = Inr (ectp_htons cfg (ucast v))"
    by (rule load_store_u16)
  with s l show ?thesis
    by (simp add: ectp_set_skipcount_def ectp_get_skipcount_def hdr_skipcount_off_def
        ntohs_htons_id)
qed

lemma ucast_down_up:
  "unat (ucast (ucast v :: uint16_t) :: uint) = unat v mod 2 ^ 16" for v :: uint
  by (simp add: unsigned_ucast_eq take_bit_eq_mod unat_mod)

text \<open>
  Claim C7.  Skip-offset round trip: on a frame buffer that holds at least the 2-byte
  header at the frame's offset, \<^verbatim>\<open>ectp_set_skipcount\<close> with a value \<open>v\<close> that fits in 16
  bits succeeds, and \<^verbatim>\<open>ectp_get_skipcount\<close> on the result returns exactly \<open>v\<close>.
\<close>

theorem skipcount_set_get_roundtrip:
  assumes "off + 2 \<le> length f" and "v \<le> 0xFFFF"
  shows "\<exists>f'. ectp_set_skipcount cfg f off v = Inr f' \<and> ectp_get_skipcount cfg f' off = Inr v"
proof -
  from assms(2) have "unat v < 2 ^ 16" by (simp add: word_le_nat_alt)
  then have "unat (ucast (ucast v :: uint16_t) :: uint) = unat v"
    by (simp add: ucast_down_up)
  then have "(ucast (ucast v :: uint16_t) :: uint) = v" by (simp only: word_unat_eq_iff)
  with set_get_skipcount [OF assms(1), of cfg v] show ?thesis by auto
qed

theorem skipcount_set_get_roundtrip_witness:
  "(1::nat) + 2 \<le> length [0, 0, 0, 0 :: uint8_t] \<and> (0xBEEF :: uint) \<le> 0xFFFF \<and>
   (\<exists>f'. ectp_set_skipcount \<lparr>host_big_endian = True, ECTP_FWDMSG = 2, ECTP_RPLYMSG = 1\<rparr>
            [0, 0, 0, 0] 1 0xBEEF = Inr f' \<and>
         ectp_get_skipcount \<lparr>host_big_endian = True, ECTP_FWDMSG = 2, ECTP_RPLYMSG = 1\<rparr>
            f' 1 = Inr 0xBEEF)"
  using skipcount_set_get_roundtrip [of 1 "[0, 0, 0, 0]" "0xBEEF"
      "\<lparr>host_big_endian = True, ECTP_FWDMSG = 2, ECTP_RPLYMSG = 1\<rparr>"]
  by simp

text \<open>
  Claim C10.  Skip-offset arithmetic is modulo \<open>2 ^ 16\<close>.  On a frame buffer that holds the
  header, \<^verbatim>\<open>ectp_set_skipcount\<close> with any \<^verbatim>\<open>unsigned int\<close> \<open>v\<close> followed by
  \<^verbatim>\<open>ectp_get_skipcount\<close> returns \<open>v mod 2 ^ 16\<close>; and \<^verbatim>\<open>ectp_inc_skipcount\<close> turns the offset
  \<open>old\<close> read from the frame into \<open>(old + ECTP_FWDMSG_SZ) mod 2 ^ 16\<close>.  The instance
  after it has the offset \<open>2 ^ 16 - 8\<close> wrap to 0.
\<close>

theorem skipcount_mod_2_16:
  assumes "off + 2 \<le> length f"
  shows "(\<exists>f' r. ectp_set_skipcount cfg f off v = Inr f' \<and>
            ectp_get_skipcount cfg f' off = Inr r \<and> unat r = unat v mod 2 ^ 16) \<and>
         (\<exists>old f' new. ectp_get_skipcount cfg f off = Inr old \<and>
            ectp_inc_skipcount cfg f off = Inr f' \<and>
            ectp_get_skipcount cfg f' off = Inr new \<and>
            unat new = (unat old + unat ECTP_FWDMSG_SZ) mod 2 ^ 16)"
proof
  from set_get_skipcount [OF assms, of cfg v]
  show "\<exists>f' r. ectp_set_skipcount cfg f off v = Inr f' \<and>
            ectp_get_skipcount cfg f' off = Inr r \<and> unat r = unat v mod 2 ^ 16"
    using ucast_down_up [of v] by blast
next
  from assms obtain w where w: "load_u16 cfg f (off + hdr_skipcount_off) = Inr w"
    by (simp add: load_u16_def hdr_skipcount_off_def)
  define old :: uint where "old = ucast (ectp_ntohs cfg w)"
  have g: "ectp_get_skipcount cfg f off = Inr old"
    by (simp add: ectp_get_skipcount_def w old_def)
  have bound: "unat old < 2 ^ 16"
  proof -
    have "unat (ectp_ntohs cfg w) < 2 ^ LENGTH(16)" by (rule unsigned_less)
    then show ?thesis
      unfolding old_def by (simp add: unsigned_ucast_eq take_bit_nat_eq_self)
  qed
  from set_get_skipcount [OF assms, of cfg "old + ECTP_FWDMSG_SZ"]
  obtain f' where s: "ectp_set_skipcount cfg f off (old + ECTP_FWDMSG_SZ) = Inr f'"
    and r: "ectp_get_skipcount cfg f' off =
              Inr (ucast (ucast (old + ECTP_FWDMSG_SZ) :: uint16_t))"
    by blast
  define new :: uint where "new = ucast (ucast (old + ECTP_FWDMSG_SZ) :: uint16_t)"
  have sum: "unat (old + ECTP_FWDMSG_SZ) = unat old + unat ECTP_FWDMSG_SZ"
    using bound by (simp add: unat_word_ariths ECTP_FWDMSG_SZ_def)
  have n: "unat new = (unat old + unat ECTP_FWDMSG_SZ) mod 2 ^ 16"
    unfolding new_def by (simp only: ucast_down_up sum)
  have "ectp_inc_skipcount cfg f off = Inr f'"
    by (simp add: ectp_inc_skipcount_def g s)
  with g r n show "\<exists>old f' new. ectp_get_skipcount cfg f off = Inr old \<and>
            ectp_inc_skipcount cfg f off = Inr f' \<and>
            ectp_get_skipcount cfg f' off = Inr new \<and>
            unat new = (unat old + unat ECTP_FWDMSG_SZ) mod 2 ^ 16"
    unfolding new_def by blast
qed

theorem skipcount_mod_2_16_witness:
  "(0::nat) + 2 \<le> length [0xF8, 0xFF :: uint8_t] \<and>
   (\<exists>f' r. ectp_set_skipcount \<lparr>host_big_endian = False, ECTP_FWDMSG = 2, ECTP_RPLYMSG = 1\<rparr>
              [0xF8, 0xFF] 0 0x12345 = Inr f' \<and>
           ectp_get_skipcount \<lparr>host_big_endian = False, ECTP_FWDMSG = 2, ECTP_RPLYMSG = 1\<rparr>
              f' 0 = Inr r \<and> unat r = 0x2345) \<and>
   (\<exists>f'. ectp_get_skipcount \<lparr>host_big_endian = False, ECTP_FWDMSG = 2, ECTP_RPLYMSG = 1\<rparr>
              [0xF8, 0xFF] 0 = Inr 0xFFF8 \<and>
         ectp_inc_skipcount \<lparr>host_big_endian = False, ECTP_FWDMSG = 2, ECTP_RPLYMSG = 1\<rparr>
              [0xF8, 0xFF] 0 = Inr f' \<and>
         ectp_get_skipcount \<lparr>host_big_endian = False, ECTP_FWDMSG = 2, ECTP_RPLYMSG = 1\<rparr>
              f' 0 = Inr 0)"
proof -
  let ?cfg = "\<lparr>host_big_endian = False, ECTP_FWDMSG = 2, ECTP_RPLYMSG = 1\<rparr>"
  have g: "ectp_get_skipcount ?cfg [0xF8, 0xFF] 0 = Inr 0xFFF8"
    by (simp add: ectp_get_skipcount_def load_u16_def hdr_skipcount_off_def
        u16_of_host_bytes_def ectp_ntohs_def)
  have h: "(0::nat) + 2 \<le> length [0xF8, 0xFF :: uint8_t]" by simp
  note t = skipcount_mod_2_16 [OF h, of ?cfg "0x12345"]
  from t obtain f' r where a: "ectp_set_skipcount ?cfg [0xF8, 0xFF] 0 0x12345 = Inr f'"
    "ectp_get_skipcount ?cfg f' 0 = Inr r" "unat r = unat (0x12345 :: uint) mod 2 ^ 16"
    by blast
  from t obtain old f'' new where b: "ectp_get_skipcount ?cfg [0xF8, 0xFF] 0 = Inr old"
    "ectp_inc_skipcount ?cfg [0xF8, 0xFF] 0 = Inr f''"
    "ectp_get_skipcount ?cfg f'' 0 = Inr new"
    "unat new = (unat old + unat ECTP_FWDMSG_SZ) mod 2 ^ 16"
    by blast
  from b(1) g have "old = 0xFFF8" by simp
  with b(4) have "unat new = 0" by (simp add: ECTP_FWDMSG_SZ_def)
  then have "new = 0" by (simp add: unat_eq_0)
  with b g have "\<exists>f'. ectp_get_skipcount ?cfg [0xF8, 0xFF] 0 = Inr 0xFFF8 \<and>
      ectp_inc_skipcount ?cfg [0xF8, 0xFF] 0 = Inr f' \<and> ectp_get_skipcount ?cfg f' 0 = Inr 0"
    by blast
  moreover from a have "\<exists>f' r. ectp_set_skipcount ?cfg [0xF8, 0xFF] 0 0x12345 = Inr f' \<and>
      ectp_get_skipcount ?cfg f' 0 = Inr r \<and> unat r = 0x2345"
    by simp
  ultimately show ?thesis using h by blast
qed

section \<open>Frame sizer: results\<close>

text \<open>
  Claim C9.  \<^verbatim>\<open>ectp_calc_frame_size k p\<close> is \<open>2 + k * ECTP_FWDMSG_SZ + ECTP_REPLYMSG_MINSZ + p\<close>
  in \<^verbatim>\<open>unsigned int\<close> arithmetic, the 2 being \<^verbatim>\<open>ECTP_FRAME_HDR_SZ\<close>; when the sum does not
  overflow 32 bits it is that sum as a natural number.
\<close>

theorem ectp_calc_frame_size_eq:
  assumes "2 + unat k * unat ECTP_FWDMSG_SZ + unat ECTP_REPLYMSG_MINSZ + unat p < 2 ^ 32"
  shows "ECTP_FRAME_HDR_SZ = 2 \<and>
         ectp_calc_frame_size k p = 2 + k * ECTP_FWDMSG_SZ + ECTP_REPLYMSG_MINSZ + p \<and>
         unat (ectp_calc_frame_size k p) =
           2 + unat k * unat ECTP_FWDMSG_SZ + unat ECTP_REPLYMSG_MINSZ + unat p"
proof -
  have w: "ectp_calc_frame_size k p = 2 + k * ECTP_FWDMSG_SZ + ECTP_REPLYMSG_MINSZ + p"
    by (simp add: ectp_calc_frame_size_def ECTP_FRAME_HDR_SZ_def)
  from assms have "2 + unat k * 8 + 4 + unat p < 2 ^ 32"
    by (simp add: ECTP_FWDMSG_SZ_def ECTP_REPLYMSG_MINSZ_def)
  then have "unat (2 + k * 8 + 4 + p) = 2 + unat k * 8 + 4 + unat p"
    by (simp add: unat_word_ariths)
  then have "unat (ectp_calc_frame_size k p) =
      2 + unat k * unat ECTP_FWDMSG_SZ + unat ECTP_REPLYMSG_MINSZ + unat p"
    by (simp add: w ECTP_FWDMSG_SZ_def ECTP_REPLYMSG_MINSZ_def)
  with w show ?thesis by (simp add: ECTP_FRAME_HDR_SZ_def)
qed

theorem ectp_calc_frame_size_eq_witness:
  "2 + unat (2 :: uint) * unat ECTP_FWDMSG_SZ + unat ECTP_REPLYMSG_MINSZ + unat (4 :: uint)
     < 2 ^ 32 \<and>
   ectp_calc_frame_size 2 4 = 26 \<and> unat (ectp_calc_frame_size 2 4) = 26"
  using ectp_calc_frame_size_eq [of 2 4]
  by (simp add: ECTP_FRAME_HDR_SZ_def ECTP_FWDMSG_SZ_def ECTP_REPLYMSG_MINSZ_def)

section \<open>Message view: results\<close>

lemma length_rplymsg_hdr_field: "length (rplymsg_hdr_field cfg r) = 4"
  by (simp add: rplymsg_hdr_field_def length_u16_host_bytes)

lemma length_skipcount_field: "length (skipcount_field cfg v) = 2"
  by (simp add: skipcount_field_def length_u16_host_bytes)

lemma length_fwdmsg_field: "length (fwdmsg_field cfg a) = 8"
  by (cases a) (simp add: fwdmsg_field_def length_u16_host_bytes)

lemma ectp_set_skipcount_ok:
  "off + 2 \<le> length m \<Longrightarrow>
   ectp_set_skipcount cfg m off v = Inr (take off m @ skipcount_field cfg v @ drop (off + 2) m)"
  by (simp add: ectp_set_skipcount_def hdr_skipcount_off_def store_u16_ok skipcount_field_def)

lemma ectp_set_rplymsg_hdr_ok:
  assumes "off + 4 \<le> length m"
  shows "ectp_set_rplymsg_hdr cfg m off r =
           Inr (take off m @ rplymsg_hdr_field cfg r @ drop (off + 4) m)"
proof -
  let ?tc = "u16_host_bytes cfg (ectp_htons cfg (ECTP_RPLYMSG cfg))"
  let ?m1 = "take off m @ ?tc @ drop (off + 2) m"
  from assms have 1: "ectp_set_msg_type cfg m off (ECTP_RPLYMSG cfg) = Inr ?m1"
    by (simp add: ectp_set_msg_type_def hdr_func_code_off_def store_u16_ok)
  from assms have len: "off + 2 + 2 \<le> length ?m1"
    by (simp add: length_u16_host_bytes)
  have t: "take (off + 2) ?m1 = take off m @ ?tc"
    using assms by (simp add: length_u16_host_bytes)
  have "drop (off + 2 + 2) ?m1 = drop 2 (drop (off + 2) ?m1)"
    by (rule drop_drop_eq [symmetric]) simp
  also have "drop (off + 2) ?m1 = drop (off + 2) m"
    using assms by (simp add: length_u16_host_bytes)
  also have "drop 2 (drop (off + 2) m) = drop (off + 4) m"
    by (rule drop_drop_eq) simp
  finally have d: "drop (off + 2 + 2) ?m1 = drop (off + 4) m" .
  have "ectp_set_rplymsg_rcpt_num cfg ?m1 off r =
          Inr (take (off + 2) ?m1 @ u16_host_bytes cfg r @ drop (off + 2 + 2) ?m1)"
    unfolding ectp_set_rplymsg_rcpt_num_def rply_msg_rcpt_num_off_def
    using len by (rule store_u16_ok)
  then show ?thesis
    by (simp only: ectp_set_rplymsg_hdr_def 1 sum.case t d rplymsg_hdr_field_def append_assoc)
qed

lemma ectp_set_fwdmsg_ok:
  assumes "off + 8 \<le> length m"
  shows "ectp_set_fwdmsg cfg m off (ether_addr_octet a) =
           Inr (take off m @ fwdmsg_field cfg a @ drop (off + 8) m)"
proof -
  let ?tc = "u16_host_bytes cfg (ectp_htons cfg (ECTP_FWDMSG cfg))"
  let ?m1 = "take off m @ ?tc @ drop (off + 2) m"
  have la: "length (ether_addr_octet a) = 6" by (cases a) simp
  from assms have 1: "ectp_set_msg_type cfg m off (ECTP_FWDMSG cfg) = Inr ?m1"
    by (simp add: ectp_set_msg_type_def hdr_func_code_off_def store_u16_ok)
  from assms have len: "off + 2 + 6 \<le> length ?m1"
    by (simp add: length_u16_host_bytes)
  have t: "take (off + 2) ?m1 = take off m @ ?tc"
    using assms by (simp add: length_u16_host_bytes)
  have "drop (off + 2 + 6) ?m1 = drop 6 (drop (off + 2) ?m1)"
    by (rule drop_drop_eq [symmetric]) simp
  also have "drop (off + 2) ?m1 = drop (off + 2) m"
    using assms by (simp add: length_u16_host_bytes)
  also have "drop 6 (drop (off + 2) m) = drop (off + 8) m"
    by (rule drop_drop_eq) simp
  finally have d: "drop (off + 2 + 6) ?m1 = drop (off + 8) m" .
  have "ectp_set_fwdaddr ?m1 off (ether_addr_octet a) =
          Inr (take (off + 2) ?m1 @ take 6 (ether_addr_octet a) @ drop (off + 2 + 6) ?m1)"
    unfolding ectp_set_fwdaddr_def fwd_msg_fwdaddr_off_def ETH_ALEN_def
    using len la by (intro memcpy_ok) simp_all
  moreover have "take 6 (ether_addr_octet a) = ether_addr_octet a"
    by (simp add: la)
  ultimately show ?thesis
    by (simp only: ectp_set_fwdmsg_def 1 sum.case t d fwdmsg_field_def append_assoc)
qed

text \<open>
  Claim C5.  On a region that holds the four header bytes at the message position,
  \<^verbatim>\<open>ectp_set_rplymsg_hdr\<close> succeeds; afterwards the discriminator field holds the Reply
  type code converted by \<^verbatim>\<open>ectp_htons\<close>, and the receipt-number field holds \<open>r\<close> itself:
  its two bytes are the host representation of \<open>r\<close>, with no byte-order conversion.
  Nothing outside the four bytes changes.
\<close>

theorem ectp_set_rplymsg_hdr_fields:
  assumes "pos + 4 \<le> length m"
  shows "\<exists>m'. ectp_set_rplymsg_hdr cfg m pos r = Inr m' \<and>
           load_u16 cfg m' (pos + hdr_func_code_off) = Inr (ectp_htons cfg (ECTP_RPLYMSG cfg)) \<and>
           load_u16 cfg m' (pos + rply_msg_rcpt_num_off) = Inr r \<and>
           take 2 (drop (pos + rply_msg_rcpt_num_off) m') = u16_host_bytes cfg r \<and>
           length m' = length m \<and> take pos m' = take pos m \<and>
           drop (pos + 4) m' = drop (pos + 4) m"
proof -
  let ?tc = "u16_host_bytes cfg (ectp_htons cfg (ECTP_RPLYMSG cfg))"
  let ?m' = "take pos m @ rplymsg_hdr_field cfg r @ drop (pos + 4) m"
  have lp: "length (take pos m) = pos" using assms by simp
  have s: "ectp_set_rplymsg_hdr cfg m pos r = Inr ?m'"
    using assms by (rule ectp_set_rplymsg_hdr_ok)
  have a: "load_u16 cfg ?m' (pos + hdr_func_code_off) = Inr (ectp_htons cfg (ECTP_RPLYMSG cfg))"
    using load_u16_at [OF lp, of cfg "ectp_htons cfg (ECTP_RPLYMSG cfg)"
        "u16_host_bytes cfg r @ drop (pos + 4) m"]
    by (simp add: rplymsg_hdr_field_def hdr_func_code_off_def)
  have lp2: "length (take pos m @ ?tc) = pos + 2" using assms by (simp add: length_u16_host_bytes)
  have b: "load_u16 cfg ?m' (pos + rply_msg_rcpt_num_off) = Inr r"
    using load_u16_at [OF lp2, of cfg r "drop (pos + 4) m"]
    by (simp add: rplymsg_hdr_field_def rply_msg_rcpt_num_off_def)
  have c: "take 2 (drop (pos + rply_msg_rcpt_num_off) ?m') = u16_host_bytes cfg r"
    using assms by (simp add: rplymsg_hdr_field_def rply_msg_rcpt_num_off_def length_u16_host_bytes)
  have d: "length ?m' = length m" using assms by (simp add: length_rplymsg_hdr_field)
  have e: "take pos ?m' = take pos m" using assms by simp
  have f: "drop (pos + 4) ?m' = drop (pos + 4) m"
    using assms by (simp add: length_rplymsg_hdr_field)
  from s a b c d e f show ?thesis by blast
qed

theorem ectp_set_rplymsg_hdr_fields_witness:
  "(1::nat) + 4 \<le> length [9, 9, 9, 9, 9, 9 :: uint8_t] \<and>
   ectp_set_rplymsg_hdr \<lparr>host_big_endian = True, ECTP_FWDMSG = 2, ECTP_RPLYMSG = 1\<rparr>
     [9, 9, 9, 9, 9, 9] 1 0x1234 = Inr [9, 1, 0, 0x12, 0x34, 9]"
proof -
  let ?cfg = "\<lparr>host_big_endian = True, ECTP_FWDMSG = 2, ECTP_RPLYMSG = 1\<rparr>"
  have h: "(1::nat) + 4 \<le> length [9, 9, 9, 9, 9, 9 :: uint8_t]" by simp
  from ectp_set_rplymsg_hdr_fields [OF h, of ?cfg "0x1234"]
  obtain m' where "ectp_set_rplymsg_hdr ?cfg [9, 9, 9, 9, 9, 9] 1 0x1234 = Inr m'" by blast
  moreover have "ectp_set_rplymsg_hdr ?cfg [9, 9, 9, 9, 9, 9] 1 0x1234 =
      Inr [9, 1, 0, 0x12, 0x34, 9]"
    by (simp add: ectp_set_rplymsg_hdr_def ectp_set_msg_type_def ectp_set_rplymsg_rcpt_num_def
        store_u16_def memcpy_def u16_host_bytes_def ectp_htons_def bswap_16_def
        hdr_func_code_off_def rply_msg_rcpt_num_off_def)
  ultimately show ?thesis using h by simp
qed

section \<open>Frame builder: results\<close>

text \<open>
  Claim C6.  With \<^verbatim>\<open>frame_buf_size\<close> zero, \<^verbatim>\<open>ectp_build_frame\<close> returns without a fault and
  leaves every byte of the destination buffer as it was, whatever the other arguments
  are and whatever the real length of the buffer is.
\<close>

theorem ectp_build_frame_capacity_zero:
  "ectp_build_frame cfg tmp_buf skipcount fwdaddrs num_fwdaddrs rcpt_num data data_size
     frame_buf 0 filler = Inr frame_buf"
  by (simp add: ectp_build_frame_def Let_def)

subsection \<open>Writing at the cursor\<close>

text \<open>
  While the builder runs, the buffer is a written prefix \<open>W\<close>, then the filler bytes of
  the capacity still left, then the bytes \<open>T\<close> beyond the capacity.
\<close>

lemma cursor_write:
  "length W = off \<Longrightarrow> length bs = k \<Longrightarrow> k \<le> n \<Longrightarrow>
   take off (W @ replicate n c @ T) @ bs @ drop (off + k) (W @ replicate n c @ T) =
   (W @ bs) @ replicate (n - k) c @ T"
  by simp

lemma take_append_replicate:
  "m \<le> n \<Longrightarrow> take m (xs @ replicate n c) = take m (xs @ replicate m c)"
  by (auto simp add: min_def)

lemma pad_to_append:
  "length ys \<le> n \<Longrightarrow> pad_to n c (ys @ xs) = ys @ pad_to (n - length ys) c xs"
  using take_append_replicate [of "n - length ys" n xs c]
  by (simp add: pad_to_def)

lemma pad_to_short: "n \<le> length xs \<Longrightarrow> pad_to n c (xs @ ys) = take n xs"
  by (simp add: pad_to_def)

lemma pad_to_Nil: "pad_to n c [] = replicate n c"
  by (simp add: pad_to_def)

lemma pad_to_fits: "length xs \<le> n \<Longrightarrow> pad_to n c xs = xs @ replicate (n - length xs) c"
  by (simp add: pad_to_def)

lemma length_pad_to: "length (pad_to n c xs) = n"
  by (simp add: pad_to_def)

lemma fwd_rest_done: "unat num \<le> j \<Longrightarrow> fwd_rest cfg fwdaddrs num j = []"
  by (simp add: fwd_rest_def)

lemma fwd_rest_step:
  assumes "j < unat num" "unat num \<le> length fwdaddrs"
  shows "fwd_rest cfg fwdaddrs num j = fwdmsg_field cfg (fwdaddrs ! j) @ fwd_rest cfg fwdaddrs num (Suc j)"
proof -
  from assms have "j < length (take (unat num) fwdaddrs)" by simp
  then have "drop j (take (unat num) fwdaddrs) =
      (take (unat num) fwdaddrs) ! j # drop (Suc j) (take (unat num) fwdaddrs)"
    by (rule Cons_nth_drop_Suc [symmetric])
  with assms show ?thesis by (simp add: fwd_rest_def)
qed

lemma fwdaddr_deref_ok:
  "j < length fwdaddrs \<Longrightarrow> fwdaddr_deref fwdaddrs j = Inr (ether_addr_octet (fwdaddrs ! j))"
  by (simp add: fwdaddr_deref_def)

lemma fwdmsg_loop_exit:
  assumes "\<not> (i \<le> num \<and> left \<noteq> 0)"
  shows "fwdmsg_loop cfg fwdaddrs num fb tmp j idx left i = Inr (fb, tmp, idx, left)"
  by (subst fwdmsg_loop.simps) (simp only: assms if_False)

lemma fwdmsg_loop_full:
  assumes "i \<le> num \<and> left \<noteq> 0" "ECTP_FWDMSG_SZ \<le> left"
    and "fwdaddr_deref fwdaddrs j = Inr a"
    and "ectp_set_fwdmsg cfg fb (unat idx) a = Inr fb'"
  shows "fwdmsg_loop cfg fwdaddrs num fb tmp j idx left i =
    fwdmsg_loop cfg fwdaddrs num fb' tmp (j + 1) (idx + ECTP_FWDMSG_SZ)
      (left - ECTP_FWDMSG_SZ) (i + 1)"
  by (subst fwdmsg_loop.simps) (simp only: assms if_True sum.case simp_thms)

lemma fwdmsg_loop_partial:
  assumes "i \<le> num \<and> left \<noteq> 0" "\<not> ECTP_FWDMSG_SZ \<le> left"
    and "fwdaddr_deref fwdaddrs j = Inr a"
    and "ectp_set_fwdmsg cfg tmp 0 a = Inr tmp'"
    and "memcpy fb (unat idx) tmp' (unat left) = Inr fb'"
  shows "fwdmsg_loop cfg fwdaddrs num fb tmp j idx left i = Inr (fb', tmp', idx, 0)"
proof -
  have "fwdmsg_loop cfg fwdaddrs num fb' tmp' j idx 0 i = Inr (fb', tmp', idx, 0)"
    by (rule fwdmsg_loop_exit) simp
  then show ?thesis
    by (subst fwdmsg_loop.simps) (simp only: assms if_True if_False sum.case simp_thms)
qed


lemma fwdmsg_loop_cursor:
  assumes "frame_buf = W @ replicate (unat buf_bytes_left) c @ T"
    and "length W = unat frame_idx"
    and "unat frame_idx + unat buf_bytes_left < 2 ^ 32"
    and "length tmp_buf = 8"
    and "unat i = fwdaddr + 1"
    and "8 * fwdaddr \<le> unat frame_idx"
    and "unat num_fwdaddrs \<le> length fwdaddrs"
  shows "\<exists>tmp' idx' left'.
           fwdmsg_loop cfg fwdaddrs num_fwdaddrs frame_buf tmp_buf fwdaddr frame_idx
             buf_bytes_left i =
             Inr (W @ pad_to (unat buf_bytes_left) c (fwd_rest cfg fwdaddrs num_fwdaddrs fwdaddr) @ T,
                  tmp', idx', left') \<and>
           length tmp' = 8 \<and>
           (if length (fwd_rest cfg fwdaddrs num_fwdaddrs fwdaddr) < unat buf_bytes_left
            then unat idx' = unat frame_idx + length (fwd_rest cfg fwdaddrs num_fwdaddrs fwdaddr) \<and>
                 unat left' = unat buf_bytes_left - length (fwd_rest cfg fwdaddrs num_fwdaddrs fwdaddr)
            else left' = 0)"
  using assms
proof (induction cfg fwdaddrs num_fwdaddrs frame_buf tmp_buf fwdaddr frame_idx buf_bytes_left i
    arbitrary: W rule: fwdmsg_loop.induct)
  case (1 cfg fwdaddrs num fb tmp j idx left i)
  let ?R = "fwd_rest cfg fwdaddrs num j"
  show ?case
  proof (cases "i \<le> num \<and> left \<noteq> 0")
    case False
    have ex: "fwdmsg_loop cfg fwdaddrs num fb tmp j idx left i = Inr (fb, tmp, idx, left)"
      using False by (rule fwdmsg_loop_exit)
    show ?thesis
    proof (cases "left = 0")
      case True
      then show ?thesis using ex "1.prems" by (simp add: pad_to_def)
    next
      case nz: False
      with False have "\<not> i \<le> num" by simp
      then have "unat num < unat i" by (simp add: word_le_nat_alt)
      with "1.prems" have "unat num \<le> j" by simp
      then have R: "?R = []" by (rule fwd_rest_done)
      from nz have "0 < unat left" by (simp add: unat_gt_0)
      then show ?thesis using ex "1.prems" R by (simp add: pad_to_Nil)
    qed
  next
    case True
    then have inum: "i \<le> num" and nz: "left \<noteq> 0" by simp_all
    from inum have "unat i \<le> unat num" by (simp add: word_le_nat_alt)
    with "1.prems" have jlt: "j < unat num" by simp
    with "1.prems" have jlen: "j < length fwdaddrs" by simp
    let ?a = "fwdaddrs ! j"
    let ?rec = "fwdmsg_field cfg ?a"
    have deref: "fwdaddr_deref fwdaddrs j = Inr (ether_addr_octet ?a)"
      using jlen by (rule fwdaddr_deref_ok)
    have Rstep: "?R = ?rec @ fwd_rest cfg fwdaddrs num (Suc j)"
      using jlt "1.prems"(7) by (rule fwd_rest_step)
    have lrec: "length ?rec = 8" by (rule length_fwdmsg_field)
    show ?thesis
    proof (cases "ECTP_FWDMSG_SZ \<le> left")
      case full: True
      then have l8: "8 \<le> unat left" by (simp add: word_le_nat_alt ECTP_FWDMSG_SZ_def)
      let ?fb' = "(W @ ?rec) @ replicate (unat left - 8) c @ T"
      have ul: "unat (left - ECTP_FWDMSG_SZ) = unat left - 8"
        using l8 by (simp add: unat_sub word_le_nat_alt ECTP_FWDMSG_SZ_def)
      have ui: "unat (idx + ECTP_FWDMSG_SZ) = unat idx + 8"
        using l8 "1.prems"(3) by (simp add: unat_word_ariths ECTP_FWDMSG_SZ_def)
      have jb: "j < 2 ^ 29" using "1.prems"(3,6) by simp
      have ui1: "unat (i + 1) = (j + 1) + 1"
        using jb "1.prems"(5) by (simp add: unat_word_ariths)
      have "unat idx + 8 \<le> length fb" using "1.prems"(1,2) l8 by simp
      then have "ectp_set_fwdmsg cfg fb (unat idx) (ether_addr_octet ?a) =
          Inr (take (unat idx) fb @ ?rec @ drop (unat idx + 8) fb)"
        by (rule ectp_set_fwdmsg_ok)
      moreover have "take (unat idx) fb @ ?rec @ drop (unat idx + 8) fb = ?fb'"
        unfolding "1.prems"(1)
        using "1.prems"(2) lrec l8 by (rule cursor_write)
      ultimately have setf: "ectp_set_fwdmsg cfg fb (unat idx) (ether_addr_octet ?a) = Inr ?fb'"
        by simp
      have unf: "fwdmsg_loop cfg fwdaddrs num fb tmp j idx left i =
          fwdmsg_loop cfg fwdaddrs num ?fb' tmp (j + 1) (idx + ECTP_FWDMSG_SZ)
            (left - ECTP_FWDMSG_SZ) (i + 1)"
        using True full deref setf by (rule fwdmsg_loop_full)
      let ?R' = "fwd_rest cfg fwdaddrs num (j + 1)"
      have "\<exists>tmp' idx' left'.
           fwdmsg_loop cfg fwdaddrs num ?fb' tmp (j + 1) (idx + ECTP_FWDMSG_SZ)
             (left - ECTP_FWDMSG_SZ) (i + 1) =
             Inr ((W @ ?rec) @ pad_to (unat (left - ECTP_FWDMSG_SZ)) c ?R' @ T, tmp', idx', left') \<and>
           length tmp' = 8 \<and>
           (if length ?R' < unat (left - ECTP_FWDMSG_SZ)
            then unat idx' = unat (idx + ECTP_FWDMSG_SZ) + length ?R' \<and>
                 unat left' = unat (left - ECTP_FWDMSG_SZ) - length ?R'
            else left' = 0)"
      proof (rule "1.IH"(1) [OF True full deref setf])
        show "?fb' = (W @ ?rec) @ replicate (unat (left - ECTP_FWDMSG_SZ)) c @ T"
          by (simp only: ul)
        show "length (W @ ?rec) = unat (idx + ECTP_FWDMSG_SZ)"
          using "1.prems"(2) lrec ui by simp
        show "unat (idx + ECTP_FWDMSG_SZ) + unat (left - ECTP_FWDMSG_SZ) < 2 ^ 32"
          using "1.prems"(3) l8 ui ul by simp
        show "length tmp = 8" by (rule "1.prems"(4))
        show "unat (i + 1) = j + 1 + 1" by (rule ui1)
        show "8 * (j + 1) \<le> unat (idx + ECTP_FWDMSG_SZ)"
          using "1.prems"(6) ui by simp
        show "unat num \<le> length fwdaddrs" by (rule "1.prems"(7))
      qed
      then obtain tmp' idx' left' where
        res: "fwdmsg_loop cfg fwdaddrs num ?fb' tmp (j + 1) (idx + ECTP_FWDMSG_SZ)
             (left - ECTP_FWDMSG_SZ) (i + 1) =
             Inr ((W @ ?rec) @ pad_to (unat left - 8) c ?R' @ T, tmp', idx', left')"
        and lt: "length tmp' = 8"
        and cnd: "if length ?R' < unat left - 8
            then unat idx' = unat idx + 8 + length ?R' \<and>
                 unat left' = unat left - 8 - length ?R'
            else left' = 0"
        unfolding ul ui by blast
      have padeq: "pad_to (unat left) c ?R = ?rec @ pad_to (unat left - 8) c ?R'"
        using pad_to_append [of ?rec "unat left" c ?R'] l8 lrec Rstep by simp
      have lR: "length ?R = 8 + length ?R'" using Rstep lrec by simp
      have cnd': "if length ?R < unat left
            then unat idx' = unat idx + length ?R \<and> unat left' = unat left - length ?R
            else left' = 0"
        using cnd l8 unfolding lR by (auto split: if_splits)
      from unf res lt cnd' padeq show ?thesis by simp
    next
      case part: False
      then have l8: "unat left < 8" by (simp add: word_le_nat_alt ECTP_FWDMSG_SZ_def)
      have "0 + 8 \<le> length tmp" using "1.prems"(4) by simp
      then have "ectp_set_fwdmsg cfg tmp 0 (ether_addr_octet ?a) =
          Inr (take 0 tmp @ ?rec @ drop (0 + 8) tmp)"
        by (rule ectp_set_fwdmsg_ok)
      then have sett: "ectp_set_fwdmsg cfg tmp 0 (ether_addr_octet ?a) = Inr ?rec"
        using "1.prems"(4) by simp
      have "memcpy fb (unat idx) ?rec (unat left) =
          Inr (take (unat idx) fb @ take (unat left) ?rec @ drop (unat idx + unat left) fb)"
        using "1.prems"(1,2) l8 lrec by (intro memcpy_ok) simp_all
      moreover have "take (unat idx) fb @ take (unat left) ?rec @ drop (unat idx + unat left) fb
          = (W @ take (unat left) ?rec) @ replicate (unat left - unat left) c @ T"
        unfolding "1.prems"(1)
        using "1.prems"(2) by (rule cursor_write) (use l8 lrec in simp_all)
      ultimately have cp: "memcpy fb (unat idx) ?rec (unat left) =
          Inr (W @ take (unat left) ?rec @ T)" by simp
      have r: "fwdmsg_loop cfg fwdaddrs num fb tmp j idx left i =
          Inr (W @ take (unat left) ?rec @ T, ?rec, idx, 0)"
        using True part deref sett cp by (rule fwdmsg_loop_partial)
      have padeq: "pad_to (unat left) c ?R = take (unat left) ?rec"
        unfolding Rstep using l8 lrec by (intro pad_to_short) simp
      have "\<not> length ?R < unat left" using Rstep lrec l8 by simp
      with r padeq lrec show ?thesis by simp
    qed
  qed
qed


lemma pad_to_short': "n \<le> length xs \<Longrightarrow> pad_to n c xs = take n xs"
  by (simp add: pad_to_def)

lemma build_rplymsg_cursor:
  assumes fb: "frame_buf = W @ replicate (unat buf_bytes_left) c @ T"
    and lW: "length W = unat frame_idx"
    and nz: "buf_bytes_left \<noteq> 0"
    and ltmp: "length tmp_buf = 8"
    and ldata: "unat data_size \<le> length data"
  shows "build_rplymsg cfg rcpt_num data data_size frame_buf tmp_buf frame_idx buf_bytes_left =
    Inr (W @ pad_to (unat buf_bytes_left) c
               (rplymsg_hdr_field cfg rcpt_num @ take (unat data_size) data) @ T)"
proof (cases "buf_bytes_left > ECTP_REPLYMSG_MINSZ")
  case True
  let ?rh = "rplymsg_hdr_field cfg rcpt_num"
  let ?n = "unat buf_bytes_left"
  let ?p = "unat data_size"
  let ?left' = "buf_bytes_left - ECTP_REPLYMSG_MINSZ"
  have lrh: "length ?rh = 4" by (rule length_rplymsg_hdr_field)
  from True have n4: "4 < ?n" by (simp add: word_less_nat_alt ECTP_REPLYMSG_MINSZ_def)
  have ul: "unat ?left' = ?n - 4"
    using n4 by (simp add: unat_sub word_le_nat_alt ECTP_REPLYMSG_MINSZ_def)
  let ?fb3 = "(W @ ?rh) @ replicate (?n - 4) c @ T"
  have "unat frame_idx + 4 \<le> length frame_buf" using fb lW n4 by simp
  then have "ectp_set_rplymsg_hdr cfg frame_buf (unat frame_idx) rcpt_num =
      Inr (take (unat frame_idx) frame_buf @ ?rh @ drop (unat frame_idx + 4) frame_buf)"
    by (rule ectp_set_rplymsg_hdr_ok)
  moreover have "take (unat frame_idx) frame_buf @ ?rh @ drop (unat frame_idx + 4) frame_buf
      = ?fb3"
    unfolding fb using lW lrh by (rule cursor_write) (use n4 in simp)
  ultimately have hdr: "ectp_set_rplymsg_hdr cfg frame_buf (unat frame_idx) rcpt_num = Inr ?fb3"
    by simp
  have lW': "length (W @ ?rh) = unat frame_idx + rply_msg_data_off"
    using lW lrh by (simp add: rply_msg_data_off_def)
  have data_write: "ectp_set_rplymsg_data ?fb3 (unat frame_idx) data k =
      Inr (((W @ ?rh) @ take (unat k) data) @ replicate (?n - 4 - unat k) c @ T)"
    if k: "unat k \<le> ?n - 4" "unat k \<le> length data" for k
  proof -
    have "memcpy ?fb3 (unat frame_idx + rply_msg_data_off) data (unat k) =
        Inr (take (unat frame_idx + rply_msg_data_off) ?fb3 @ take (unat k) data @
             drop (unat frame_idx + rply_msg_data_off + unat k) ?fb3)"
      using k lW' by (intro memcpy_ok) simp_all
    moreover have "take (unat frame_idx + rply_msg_data_off) ?fb3 @ take (unat k) data @
             drop (unat frame_idx + rply_msg_data_off + unat k) ?fb3 =
        ((W @ ?rh) @ take (unat k) data) @ replicate (?n - 4 - unat k) c @ T"
      using lW' by (rule cursor_write) (use k in simp_all)
    ultimately show ?thesis by (simp only: ectp_set_rplymsg_data_def)
  qed
  show ?thesis
  proof (cases "?left' \<ge> data_size")
    case fits: True
    then have pn: "?p \<le> ?n - 4" using ul by (simp add: word_le_nat_alt)
    have "ectp_set_rplymsg_data ?fb3 (unat frame_idx) data data_size =
        Inr (((W @ ?rh) @ take ?p data) @ replicate (?n - 4 - ?p) c @ T)"
      using pn ldata by (rule data_write)
    moreover have "pad_to ?n c (?rh @ take ?p data) =
        (?rh @ take ?p data) @ replicate (?n - 4 - ?p) c"
      using pad_to_fits [of "?rh @ take ?p data" ?n c] pn n4 lrh ldata by simp
    ultimately show ?thesis
      using True fits hdr by (simp add: build_rplymsg_def Let_def)
  next
    case cut: False
    then have pn: "?n - 4 < ?p" using ul by (simp add: word_le_nat_alt)
    have pos: "?left' > 0" using ul n4 by (simp add: word_less_nat_alt)
    have "ectp_set_rplymsg_data ?fb3 (unat frame_idx) data ?left' =
        Inr (((W @ ?rh) @ take (unat ?left') data) @ replicate (?n - 4 - unat ?left') c @ T)"
      using ul pn ldata by (intro data_write) simp_all
    then have w: "ectp_set_rplymsg_data ?fb3 (unat frame_idx) data ?left' =
        Inr (W @ (?rh @ take (?n - 4) data) @ T)"
      by (simp add: ul)
    have "pad_to ?n c (?rh @ take ?p data) = ?rh @ pad_to (?n - 4) c (take ?p data)"
      using pad_to_append [of ?rh ?n c "take ?p data"] n4 lrh by simp
    also have "pad_to (?n - 4) c (take ?p data) = take (?n - 4) (take ?p data)"
      using pn ldata by (intro pad_to_short') simp
    also have "\<dots> = take (?n - 4) data" using pn by (simp add: min_def)
    finally have "pad_to ?n c (?rh @ take ?p data) = ?rh @ take (?n - 4) data" .
    then show ?thesis
      using True cut pos hdr w by (simp add: build_rplymsg_def Let_def)
  qed
next
  case False
  let ?rh = "rplymsg_hdr_field cfg rcpt_num"
  let ?n = "unat buf_bytes_left"
  have lrh: "length ?rh = 4" by (rule length_rplymsg_hdr_field)
  from False have n4: "?n \<le> 4" by (simp add: word_less_nat_alt ECTP_REPLYMSG_MINSZ_def)
  have "0 + 4 \<le> length tmp_buf" using ltmp by simp
  then have "ectp_set_rplymsg_hdr cfg tmp_buf 0 rcpt_num =
      Inr (take 0 tmp_buf @ ?rh @ drop (0 + 4) tmp_buf)"
    by (rule ectp_set_rplymsg_hdr_ok)
  then have sett: "ectp_set_rplymsg_hdr cfg tmp_buf 0 rcpt_num = Inr (?rh @ drop 4 tmp_buf)"
    by simp
  have m: "memcpy frame_buf (unat frame_idx) (?rh @ drop 4 tmp_buf) ?n =
      Inr (take (unat frame_idx) frame_buf @ take ?n (?rh @ drop 4 tmp_buf) @
           drop (unat frame_idx + ?n) frame_buf)"
    using fb lW n4 lrh by (intro memcpy_ok) simp_all
  have tk: "take ?n (?rh @ drop 4 tmp_buf) = take ?n ?rh" using n4 lrh by simp
  have cw: "take (unat frame_idx) frame_buf @ take ?n ?rh @
           drop (unat frame_idx + ?n) frame_buf = (W @ take ?n ?rh) @ replicate (?n - ?n) c @ T"
    unfolding fb using lW by (rule cursor_write) (use n4 lrh in simp_all)
  have cp: "memcpy frame_buf (unat frame_idx) (?rh @ drop 4 tmp_buf) ?n =
      Inr (W @ take ?n ?rh @ T)"
    unfolding m tk cw by simp
  have "pad_to ?n c (?rh @ take (unat data_size) data) = take ?n ?rh"
    using n4 lrh by (intro pad_to_short) simp
  then show ?thesis
    using False sett cp by (simp add: build_rplymsg_def)
qed


lemma logical_frame_fwd_rest:
  "logical_frame cfg skipcount fwdaddrs num rcpt_num data data_size =
     skipcount_field cfg skipcount @ fwd_rest cfg fwdaddrs num 0 @
     rplymsg_hdr_field cfg rcpt_num @ take (unat data_size) data"
  by (simp add: logical_frame_def fwd_rest_def)

lemma memset_ok:
  "n \<le> length s \<Longrightarrow> memset s c n = Inr (replicate n c @ drop n s)"
  by (simp add: memset_def)

lemma ectp_build_frame_image:
  assumes cap: "unat frame_buf_size \<le> length frame_buf"
    and ltmp: "length tmp_buf = 8"
    and lfwd: "unat num_fwdaddrs \<le> length fwdaddrs"
    and ldata: "unat data_size \<le> length data"
  shows "ectp_build_frame cfg tmp_buf skipcount fwdaddrs num_fwdaddrs rcpt_num data data_size
           frame_buf frame_buf_size filler =
         Inr (pad_to (unat frame_buf_size) filler
                (logical_frame cfg skipcount fwdaddrs num_fwdaddrs rcpt_num data data_size)
              @ drop (unat frame_buf_size) frame_buf)"
proof (cases "frame_buf_size = 0")
  case True
  then show ?thesis by (simp add: ectp_build_frame_def Let_def pad_to_def)
next
  case nz: False
  let ?n = "unat frame_buf_size"
  let ?c = filler
  let ?T = "drop ?n frame_buf"
  let ?fb0 = "replicate ?n ?c @ ?T"
  let ?hdr = "skipcount_field cfg skipcount"
  let ?R = "fwd_rest cfg fwdaddrs num_fwdaddrs 0"
  let ?rh = "rplymsg_hdr_field cfg rcpt_num"
  let ?d = "take (unat data_size) data"
  let ?F = "logical_frame cfg skipcount fwdaddrs num_fwdaddrs rcpt_num data data_size"
  have F: "?F = ?hdr @ ?R @ ?rh @ ?d" by (rule logical_frame_fwd_rest)
  have lhdr: "length ?hdr = 2" by (rule length_skipcount_field)
  have ms: "memset frame_buf filler ?n = Inr ?fb0" using cap by (rule memset_ok)
  have npos: "0 < ?n" using nz by (simp add: unat_gt_0)
  show ?thesis
  proof (cases "frame_buf_size > ECTP_FRAME_HDR_SZ")
    case big: True
    then have n2: "2 < ?n" by (simp add: word_less_nat_alt ECTP_FRAME_HDR_SZ_def)
    let ?left = "frame_buf_size - ECTP_FRAME_HDR_SZ"
    let ?idx = "0 + ECTP_FRAME_HDR_SZ"
    have ul: "unat ?left = ?n - 2"
      using n2 by (simp add: unat_sub word_le_nat_alt ECTP_FRAME_HDR_SZ_def)
    have ui: "unat ?idx = 2" by (simp add: ECTP_FRAME_HDR_SZ_def)
    let ?fb1 = "([] @ ?hdr) @ replicate (?n - 2) ?c @ ?T"
    have "0 + 2 \<le> length ?fb0" using n2 by simp
    then have "ectp_set_skipcount cfg ?fb0 0 skipcount =
        Inr (take 0 ?fb0 @ ?hdr @ drop (0 + 2) ?fb0)"
      by (rule ectp_set_skipcount_ok)
    moreover have "take 0 ([] @ ?fb0) @ ?hdr @ drop (0 + 2) ([] @ ?fb0) = ?fb1"
      by (rule cursor_write) (use lhdr n2 in simp_all)
    ultimately have sk: "ectp_set_skipcount cfg ?fb0 0 skipcount =
        Inr (?hdr @ replicate (?n - 2) ?c @ ?T)"
      by simp
    have "\<exists>tmp' idx' left'.
        fwdmsg_loop cfg fwdaddrs num_fwdaddrs (?hdr @ replicate (?n - 2) ?c @ ?T) tmp_buf 0
          ?idx ?left 1 =
          Inr (?hdr @ pad_to (unat ?left) ?c ?R @ ?T, tmp', idx', left') \<and>
        length tmp' = 8 \<and>
        (if length ?R < unat ?left
         then unat idx' = unat ?idx + length ?R \<and> unat left' = unat ?left - length ?R
         else left' = 0)"
    proof (rule fwdmsg_loop_cursor)
      show "?hdr @ replicate (?n - 2) ?c @ ?T = ?hdr @ replicate (unat ?left) ?c @ ?T"
        by (simp only: ul)
      show "length ?hdr = unat ?idx" by (simp only: lhdr ui)
      have "?n < 2 ^ 32" using unsigned_less [of frame_buf_size] by simp
      then show "unat ?idx + unat ?left < 2 ^ 32" using n2 unfolding ui ul by simp
      show "length tmp_buf = 8" by (rule ltmp)
      show "unat (1 :: uint) = 0 + 1" by simp
      show "8 * 0 \<le> unat ?idx" by simp
      show "unat num_fwdaddrs \<le> length fwdaddrs" by (rule lfwd)
    qed
    then obtain tmp' idx' left' where
      loop: "fwdmsg_loop cfg fwdaddrs num_fwdaddrs (?hdr @ replicate (?n - 2) ?c @ ?T) tmp_buf 0
          ?idx ?left 1 = Inr (?hdr @ pad_to (?n - 2) ?c ?R @ ?T, tmp', idx', left')"
      and lt': "length tmp' = 8"
      and cnd: "if length ?R < ?n - 2
         then unat idx' = 2 + length ?R \<and> unat left' = ?n - 2 - length ?R
         else left' = 0"
      unfolding ul ui by blast
    have padF: "pad_to ?n ?c ?F = ?hdr @ pad_to (?n - 2) ?c (?R @ ?rh @ ?d)"
      unfolding F using pad_to_append [of ?hdr ?n ?c "?R @ ?rh @ ?d"] n2 lhdr by simp
    show ?thesis
    proof (cases "left' = 0")
      case z: True
      have "\<not> length ?R < ?n - 2"
      proof
        assume a: "length ?R < ?n - 2"
        with cnd have "unat left' = ?n - 2 - length ?R" by simp
        with a z show False by simp
      qed
      then have "pad_to (?n - 2) ?c (?R @ ?rh @ ?d) = pad_to (?n - 2) ?c ?R"
        by (simp add: pad_to_short pad_to_short')
      with padF have "pad_to ?n ?c ?F = ?hdr @ pad_to (?n - 2) ?c ?R" by simp
      then show ?thesis
        using nz ms big sk loop z by (simp add: ectp_build_frame_def Let_def)
    next
      case lnz: False
      with cnd have Rlt: "length ?R < ?n - 2" by (auto split: if_splits)
      with cnd have ui': "unat idx' = 2 + length ?R" and ul': "unat left' = ?n - 2 - length ?R"
        by simp_all
      have fb2: "?hdr @ pad_to (?n - 2) ?c ?R @ ?T =
          (?hdr @ ?R) @ replicate (unat left') ?c @ ?T"
        using Rlt ul' by (simp add: pad_to_fits)
      have "build_rplymsg cfg rcpt_num data data_size (?hdr @ pad_to (?n - 2) ?c ?R @ ?T) tmp'
          idx' left' = Inr ((?hdr @ ?R) @ pad_to (unat left') ?c (?rh @ ?d) @ ?T)"
        using fb2
      proof (rule build_rplymsg_cursor)
        show "length (?hdr @ ?R) = unat idx'" using ui' lhdr by simp
        show "left' \<noteq> 0" by (rule lnz)
        show "length tmp' = 8" by (rule lt')
        show "unat data_size \<le> length data" by (rule ldata)
      qed
      moreover have "pad_to ?n ?c ?F = (?hdr @ ?R) @ pad_to (unat left') ?c (?rh @ ?d)"
        unfolding F using pad_to_append [of "?hdr @ ?R" ?n ?c "?rh @ ?d"] Rlt lhdr ul'
        by simp
      ultimately show ?thesis
        using nz ms big sk loop lnz by (simp add: ectp_build_frame_def Let_def)
    qed
  next
    case small: False
    then have n2: "?n \<le> 2" by (simp add: word_less_nat_alt ECTP_FRAME_HDR_SZ_def)
    let ?tmp1 = "take 0 tmp_buf @ ?hdr @ drop (0 + 2) tmp_buf"
    have "0 + 2 \<le> length tmp_buf" using ltmp by simp
    then have sk: "ectp_set_skipcount cfg tmp_buf 0 skipcount = Inr ?tmp1"
      by (rule ectp_set_skipcount_ok)
    have m: "memcpy ?fb0 0 ?tmp1 ?n =
        Inr (take 0 ?fb0 @ take ?n ?tmp1 @ drop (0 + ?n) ?fb0)"
      using n2 lhdr by (intro memcpy_ok) simp_all
    have tk: "take ?n ?tmp1 = take ?n ?hdr" using n2 lhdr by simp
    have cp: "memcpy ?fb0 0 ?tmp1 ?n = Inr (take ?n ?hdr @ ?T)"
      unfolding m tk by simp
    have "pad_to ?n ?c ?F = take ?n ?hdr"
      unfolding F using n2 lhdr by (intro pad_to_short) simp
    then show ?thesis
      using nz ms small sk cp by (simp add: ectp_build_frame_def Let_def)
  qed
qed

lemma length_logical_frame:
  assumes "unat k \<le> length fwdaddrs" "unat p \<le> length data"
  shows "length (logical_frame cfg skipcount fwdaddrs k rcpt_num data p) =
           2 + 8 * unat k + 4 + unat p"
proof -
  have "length (concat (map (fwdmsg_field cfg) xs)) = 8 * length xs" for xs
    by (induction xs) (simp_all add: length_fwdmsg_field)
  with assms show ?thesis
    by (simp add: logical_frame_def length_skipcount_field length_rplymsg_hdr_field)
qed

lemma unat_calc_frame_size:
  "unat (ectp_calc_frame_size k p) = (2 + 8 * unat k + 4 + unat p) mod 2 ^ 32"
proof -
  have "unat (2 + k * 8 + 4 + p) = (2 + unat k * 8 + 4 + unat p) mod 2 ^ 32"
    by (simp add: unat_word_ariths mod_simps)
  then show ?thesis
    by (simp add: ectp_calc_frame_size_def ECTP_FRAME_HDR_SZ_def ECTP_FWDMSG_SZ_def
      ECTP_REPLYMSG_MINSZ_def mult.commute)
qed

subsection \<open>Truncation and bounds\<close>

text \<open>
  Claim C2.  The builder never overruns the buffer.  For every capacity
  \<^verbatim>\<open>frame_buf_size\<close> that \<^verbatim>\<open>frame_buf\<close> really has, and source arrays that hold the
  \<^verbatim>\<open>num_fwdaddrs\<close> addresses and \<^verbatim>\<open>data_size\<close> bytes they are said to hold,
  \<^verbatim>\<open>ectp_build_frame\<close> returns without a fault: no \<^verbatim>\<open>memset\<close>, field write or \<^verbatim>\<open>memcpy\<close> goes
  outside its region.  The buffer keeps its length and every byte at index
  \<^verbatim>\<open>frame_buf_size\<close> or beyond keeps its value.  A buffer of exactly \<^verbatim>\<open>frame_buf_size\<close>
  bytes is one instance, in which a write at any index from \<^verbatim>\<open>frame_buf_size\<close> on would
  be a fault: the builder run on the buffer cut to its first \<^verbatim>\<open>frame_buf_size\<close> bytes
  returns without a fault, with the same bytes.
\<close>

theorem ectp_build_frame_in_bounds:
  assumes "unat frame_buf_size \<le> length frame_buf"
    and "length tmp_buf = unat ECTP_FWDMSG_SZ"
    and "unat num_fwdaddrs \<le> length fwdaddrs" and "unat data_size \<le> length data"
  shows "\<exists>frame_buf'.
     ectp_build_frame cfg tmp_buf skipcount fwdaddrs num_fwdaddrs rcpt_num data data_size
       frame_buf frame_buf_size filler = Inr frame_buf' \<and>
     length frame_buf' = length frame_buf \<and>
     drop (unat frame_buf_size) frame_buf' = drop (unat frame_buf_size) frame_buf \<and>
     ectp_build_frame cfg tmp_buf skipcount fwdaddrs num_fwdaddrs rcpt_num data data_size
       (take (unat frame_buf_size) frame_buf) frame_buf_size filler =
       Inr (take (unat frame_buf_size) frame_buf')"
proof -
  let ?n = "unat frame_buf_size"
  let ?F = "logical_frame cfg skipcount fwdaddrs num_fwdaddrs rcpt_num data data_size"
  let ?out = "pad_to ?n filler ?F @ drop ?n frame_buf"
  have t8: "length tmp_buf = 8" using assms(2) by (simp add: ECTP_FWDMSG_SZ_def)
  have run: "ectp_build_frame cfg tmp_buf skipcount fwdaddrs num_fwdaddrs rcpt_num data
       data_size frame_buf frame_buf_size filler = Inr ?out"
    using assms(1) t8 assms(3,4) by (rule ectp_build_frame_image)
  have len: "length ?out = length frame_buf"
    using assms(1) by (simp add: length_pad_to)
  have rest: "drop ?n ?out = drop ?n frame_buf"
    by (simp add: length_pad_to)
  have "?n \<le> length (take ?n frame_buf)" using assms(1) by simp
  then have "ectp_build_frame cfg tmp_buf skipcount fwdaddrs num_fwdaddrs rcpt_num data
       data_size (take ?n frame_buf) frame_buf_size filler =
       Inr (pad_to ?n filler ?F @ drop ?n (take ?n frame_buf))"
    using t8 assms(3,4) by (rule ectp_build_frame_image)
  moreover have "pad_to ?n filler ?F @ drop ?n (take ?n frame_buf) = take ?n ?out"
    by (simp add: length_pad_to)
  ultimately have exact: "ectp_build_frame cfg tmp_buf skipcount fwdaddrs num_fwdaddrs
       rcpt_num data data_size (take ?n frame_buf) frame_buf_size filler = Inr (take ?n ?out)"
    by (simp only:)
  from run len rest exact show ?thesis by blast
qed

theorem ectp_build_frame_in_bounds_witness:
  "unat (13 :: uint) \<le> length (replicate 16 (0x55 :: uint8_t)) \<and>
   length (replicate 8 (0x77 :: uint8_t)) = unat ECTP_FWDMSG_SZ \<and>
   unat (2 :: uint) \<le> length
     [Ether_addr 0x10 0x11 0x12 0x13 0x14 0x15, Ether_addr 0x20 0x21 0x22 0x23 0x24 0x25] \<and>
   unat (4 :: uint) \<le> length [0xA1, 0xA2, 0xA3, 0xA4 :: uint8_t] \<and>
   (\<exists>frame_buf'.
      ectp_build_frame \<lparr>host_big_endian = True, ECTP_FWDMSG = 2, ECTP_RPLYMSG = 1\<rparr>
        (replicate 8 0x77) 0x0108
        [Ether_addr 0x10 0x11 0x12 0x13 0x14 0x15, Ether_addr 0x20 0x21 0x22 0x23 0x24 0x25] 2
        0x1234 [0xA1, 0xA2, 0xA3, 0xA4] 4 (replicate 16 0x55) 13 0xFF = Inr frame_buf' \<and>
      length frame_buf' = 16 \<and> drop 13 frame_buf' = [0x55, 0x55, 0x55])"
proof -
  let ?cfg = "\<lparr>host_big_endian = True, ECTP_FWDMSG = 2, ECTP_RPLYMSG = 1\<rparr>"
  let ?addrs =
    "[Ether_addr 0x10 0x11 0x12 0x13 0x14 0x15, Ether_addr 0x20 0x21 0x22 0x23 0x24 0x25]"
  let ?data = "[0xA1, 0xA2, 0xA3, 0xA4 :: uint8_t]"
  have h1: "unat (13 :: uint) \<le> length (replicate 16 (0x55 :: uint8_t))" by simp
  have h2: "length (replicate 8 (0x77 :: uint8_t)) = unat ECTP_FWDMSG_SZ"
    by (simp add: ECTP_FWDMSG_SZ_def)
  have h3: "unat (2 :: uint) \<le> length ?addrs" by simp
  have h4: "unat (4 :: uint) \<le> length ?data" by simp
  from ectp_build_frame_in_bounds [OF h1 h2 h3 h4, of ?cfg "0x0108" "0x1234" "0xFF"]
  obtain frame_buf' where
    r: "ectp_build_frame ?cfg (replicate 8 0x77) 0x0108 ?addrs 2 0x1234 ?data 4
          (replicate 16 0x55) 13 0xFF = Inr frame_buf'"
    and n: "length frame_buf' = length (replicate 16 (0x55 :: uint8_t))"
    and d: "drop (unat (13 :: uint)) frame_buf' = drop (unat (13 :: uint)) (replicate 16 0x55)"
    and x: "ectp_build_frame ?cfg (replicate 8 0x77) 0x0108 ?addrs 2 0x1234 ?data 4
          (take (unat (13 :: uint)) (replicate 16 0x55)) 13 0xFF =
          Inr (take (unat (13 :: uint)) frame_buf')"
    by blast
  from n have n': "length frame_buf' = 16" by simp
  have "drop 13 (replicate 16 (0x55 :: uint8_t)) = [0x55, 0x55, 0x55]"
    by (simp add: numeral_eq_Suc)
  with d have d': "drop 13 frame_buf' = [0x55, 0x55, 0x55]" by simp
  from r n' d' have "\<exists>frame_buf'.
      ectp_build_frame ?cfg (replicate 8 0x77) 0x0108 ?addrs 2 0x1234 ?data 4
        (replicate 16 0x55) 13 0xFF = Inr frame_buf' \<and>
      length frame_buf' = 16 \<and> drop 13 frame_buf' = [0x55, 0x55, 0x55]"
    by blast
  with h1 h2 h3 h4 show ?thesis by (intro conjI)
qed

subsection \<open>The builder in one memory\<close>

text \<open>
  A write into the region \<open>fb\<close> is the same write into a memory \<open>P @ fb @ T\<close> at the
  address \<open>length P\<close> further on, and a source array outside \<open>fb\<close> reads the same
  whatever \<open>fb\<close> holds.  So the builder in one memory, called with source arrays that
  lie outside \<^verbatim>\<open>frame_buf\<close>, does what the builder on a region of its own does.
\<close>

lemma memcpy_embed:
  assumes "memcpy fb off src n = Inr fb'"
  shows "memcpy (P @ fb @ T) (length P + off) src n = Inr (P @ fb' @ T) \<and> length fb' = length fb"
proof -
  from assms have b: "off + n \<le> length fb" "n \<le> length src"
    and r: "fb' = take off fb @ take n src @ drop (off + n) fb"
    by (auto simp add: memcpy_def split: if_splits)
  have "drop (length P + off + n) (P @ fb @ T) = drop (off + n) fb @ T"
    using b(1) by (simp add: add.assoc)
  moreover have "take (length P + off) (P @ fb @ T) = P @ take off fb"
    using b(1) by simp
  moreover have "\<not> length (P @ fb @ T) < length P + off + n" using b(1) by simp
  ultimately have "memcpy (P @ fb @ T) (length P + off) src n =
      Inr ((P @ take off fb) @ take n src @ drop (off + n) fb @ T)"
    using b(2) by (simp only: memcpy_def if_False not_less [symmetric] simp_thms) 
  with r b show ?thesis by simp
qed


lemma store_u16_embed:
  assumes "store_u16 cfg fb off v = Inr fb'"
  shows "store_u16 cfg (P @ fb @ T) (length P + off) v = Inr (P @ fb' @ T) \<and>
         length fb' = length fb"
  using assms unfolding store_u16_def by (rule memcpy_embed)

lemma ectp_set_msg_type_embed:
  assumes "ectp_set_msg_type cfg fb off t = Inr fb'"
  shows "ectp_set_msg_type cfg (P @ fb @ T) (length P + off) t = Inr (P @ fb' @ T) \<and>
         length fb' = length fb"
  using store_u16_embed [of cfg fb "off + hdr_func_code_off" _ fb' P T] assms
  by (simp add: ectp_set_msg_type_def add.assoc)

lemma ectp_set_skipcount_embed:
  assumes "ectp_set_skipcount cfg fb off v = Inr fb'"
  shows "ectp_set_skipcount cfg (P @ fb @ T) (length P + off) v = Inr (P @ fb' @ T) \<and>
         length fb' = length fb"
  using store_u16_embed [of cfg fb "off + hdr_skipcount_off" _ fb' P T] assms
  by (simp add: ectp_set_skipcount_def add.assoc)

lemma ectp_set_rplymsg_hdr_embed:
  assumes "ectp_set_rplymsg_hdr cfg fb off r = Inr fb'"
  shows "ectp_set_rplymsg_hdr cfg (P @ fb @ T) (length P + off) r = Inr (P @ fb' @ T) \<and>
         length fb' = length fb"
proof -
  from assms obtain fb1 where
    s1: "ectp_set_msg_type cfg fb off (ECTP_RPLYMSG cfg) = Inr fb1"
    and s2: "store_u16 cfg fb1 (off + rply_msg_rcpt_num_off) r = Inr fb'"
    by (auto simp add: ectp_set_rplymsg_hdr_def ectp_set_rplymsg_rcpt_num_def split: sum.splits)
  from s1 have e1: "ectp_set_msg_type cfg (P @ fb @ T) (length P + off) (ECTP_RPLYMSG cfg) =
      Inr (P @ fb1 @ T)" and l1: "length fb1 = length fb"
    using ectp_set_msg_type_embed by (blast+)
  from s2 have e2: "store_u16 cfg (P @ fb1 @ T) (length P + (off + rply_msg_rcpt_num_off)) r =
      Inr (P @ fb' @ T)" and l2: "length fb' = length fb1"
    using store_u16_embed by (blast+)
  from e1 e2 l1 l2 show ?thesis
    by (simp add: ectp_set_rplymsg_hdr_def ectp_set_rplymsg_rcpt_num_def add.assoc)
qed

lemma memset_embed:
  assumes "memset fb c n = Inr fb'"
  shows "memset_at (P @ fb @ T) (length P) c n = Inr (P @ fb' @ T) \<and> length fb' = length fb"
  using assms by (auto simp add: memset_def memset_at_def split: if_splits)

lemma read_outside:
  assumes "outside s k (length P) (length X)" and "length Y = length X"
  shows "take k (drop s (P @ X @ T)) = take k (drop s (P @ Y @ T))"
  using assms unfolding outside_def by auto

lemma outside_sub:
  "outside s k a n \<Longrightarrow> s \<le> s' \<Longrightarrow> s' + k' \<le> s + k \<Longrightarrow> outside s' k' a n"
  unfolding outside_def by auto

lemma memcpy_at_embed:
  assumes "memcpy fb off bs n = Inr fb'"
    and "take n (drop src (P @ fb @ T)) = take n bs"
    and "src + n \<le> length P + length fb + length T"
    and "outside src n (length P) (length fb)"
  shows "memcpy_at (P @ fb @ T) (length P + off) src n = Inr (P @ fb' @ T) \<and>
         length fb' = length fb"
proof -
  from assms(1) have b: "off + n \<le> length fb"
    by (auto simp add: memcpy_def split: if_splits)
  from assms(1) have e: "memcpy (P @ fb @ T) (length P + off) bs n = Inr (P @ fb' @ T)"
    and l: "length fb' = length fb"
    using memcpy_embed by (blast+)
  from e have r: "take (length P + off) (P @ fb @ T) @ take n bs @
      drop (length P + off + n) (P @ fb @ T) = P @ fb' @ T"
    by (auto simp add: memcpy_def split: if_splits)
  have no: "\<not> (length P + off < src + n \<and> src < length P + off + n)"
    using assms(4) b unfolding outside_def by auto
  have w: "\<not> length (P @ fb @ T) < length P + off + n" using b by simp
  have rd: "\<not> length (P @ fb @ T) < src + n" using assms(3) by simp
  have "memcpy_at (P @ fb @ T) (length P + off) src n =
      Inr (take (length P + off) (P @ fb @ T) @ take n (drop src (P @ fb @ T)) @
           drop (length P + off + n) (P @ fb @ T))"
    unfolding memcpy_at_def using no w rd by (simp only: if_False)
  with r l show ?thesis by (simp only: assms(2))
qed

lemma ectp_set_fwdmsg_at_embed:
  assumes "ectp_set_fwdmsg cfg fb off bs = Inr fb'"
    and rd: "\<And>X. length X = length fb \<Longrightarrow> take 6 (drop src (P @ X @ T)) = take 6 bs"
    and "src + 6 \<le> length P + length fb + length T"
    and "outside src 6 (length P) (length fb)"
  shows "ectp_set_fwdmsg_at cfg (P @ fb @ T) (length P + off) src = Inr (P @ fb' @ T) \<and>
         length fb' = length fb"
proof -
  from assms(1) obtain fb1 where
    s1: "ectp_set_msg_type cfg fb off (ECTP_FWDMSG cfg) = Inr fb1"
    and s2: "memcpy fb1 (off + fwd_msg_fwdaddr_off) bs 6 = Inr fb'"
    by (auto simp add: ectp_set_fwdmsg_def ectp_set_fwdaddr_def ETH_ALEN_def split: sum.splits)
  from s1 have e1: "ectp_set_msg_type cfg (P @ fb @ T) (length P + off) (ECTP_FWDMSG cfg) =
      Inr (P @ fb1 @ T)" and l1: "length fb1 = length fb"
    using ectp_set_msg_type_embed by (blast+)
  have "memcpy_at (P @ fb1 @ T) (length P + (off + fwd_msg_fwdaddr_off)) src 6 =
      Inr (P @ fb' @ T) \<and> length fb' = length fb1"
    using s2
  proof (rule memcpy_at_embed)
    show "take 6 (drop src (P @ fb1 @ T)) = take 6 bs" using l1 by (rule rd)
    show "src + 6 \<le> length P + length fb1 + length T" using assms(3) l1 by simp
    show "outside src 6 (length P) (length fb1)" using assms(4) l1 by simp
  qed
  with e1 l1 show ?thesis
    by (simp add: ectp_set_fwdmsg_at_def ectp_set_fwdaddr_at_def ETH_ALEN_def add.assoc)
qed

lemma ectp_set_rplymsg_data_at_embed:
  assumes "ectp_set_rplymsg_data fb off data k = Inr fb'"
    and "take (unat k) (drop src (P @ fb @ T)) = take (unat k) data"
    and "src + unat k \<le> length P + length fb + length T"
    and "outside src (unat k) (length P) (length fb)"
  shows "ectp_set_rplymsg_data_at (P @ fb @ T) (length P + off) src k = Inr (P @ fb' @ T)"
  using memcpy_at_embed [of fb "off + rply_msg_data_off" data "unat k" fb' src P T] assms
  by (simp add: ectp_set_rplymsg_data_def ectp_set_rplymsg_data_at_def add.assoc)

lemma ectp_set_fwdmsg_take:
  "take 6 s = take 6 s' \<Longrightarrow> 6 \<le> length s \<Longrightarrow> 6 \<le> length s' \<Longrightarrow>
   ectp_set_fwdmsg cfg m off s = ectp_set_fwdmsg cfg m off s'"
  by (simp add: ectp_set_fwdmsg_def ectp_set_fwdaddr_def memcpy_def ETH_ALEN_def
      split: sum.splits)

lemma fwdmsg_loop_at_exit:
  assumes "\<not> (i \<le> num \<and> left \<noteq> 0)"
  shows "fwdmsg_loop_at cfg num a m tmp fp idx left i = Inr (m, tmp, idx, left)"
  by (subst fwdmsg_loop_at.simps) (simp only: assms if_False)

lemma fwdmsg_loop_at_full:
  assumes "i \<le> num \<and> left \<noteq> 0" "ECTP_FWDMSG_SZ \<le> left"
    and "ectp_set_fwdmsg_at cfg m (a + unat idx) fp = Inr m'"
  shows "fwdmsg_loop_at cfg num a m tmp fp idx left i =
    fwdmsg_loop_at cfg num a m' tmp (fp + ETH_ALEN) (idx + ECTP_FWDMSG_SZ)
      (left - ECTP_FWDMSG_SZ) (i + 1)"
  by (subst fwdmsg_loop_at.simps) (simp only: assms if_True sum.case simp_thms)

lemma fwdmsg_loop_at_partial:
  assumes "i \<le> num \<and> left \<noteq> 0" "\<not> ECTP_FWDMSG_SZ \<le> left"
    and "ectp_set_fwdmsg cfg tmp 0 (drop fp m) = Inr tmp'"
    and "memcpy m (a + unat idx) tmp' (unat left) = Inr m'"
  shows "fwdmsg_loop_at cfg num a m tmp fp idx left i = Inr (m', tmp', idx, 0)"
proof -
  have "fwdmsg_loop_at cfg num a m' tmp' fp idx 0 i = Inr (m', tmp', idx, 0)"
    by (rule fwdmsg_loop_at_exit) simp
  then show ?thesis
    by (subst fwdmsg_loop_at.simps) (simp only: assms if_True if_False sum.case simp_thms)
qed

lemma fwdmsg_loop_at_embed:
  assumes "fwdmsg_loop cfg addrs k fb tmp j idx left i = Inr (fb', tmp', idx', left')"
    and "outside fp (6 * unat k) (length P) (length fb)"
    and "fp + 6 * unat k \<le> length P + length fb + length T"
    and "\<And>X j. length X = length fb \<Longrightarrow> j < unat k \<Longrightarrow>
           take 6 (drop (fp + 6 * j) (P @ X @ T)) = ether_addr_octet (addrs ! j)"
    and "unat i = j + 1"
    and "8 * j \<le> unat idx"
    and "unat idx + unat left < 2 ^ 32"
  shows "fwdmsg_loop_at cfg k (length P) (P @ fb @ T) tmp (fp + 6 * j) idx left i =
           Inr (P @ fb' @ T, tmp', idx', left') \<and> length fb' = length fb"
  using assms
proof (induction cfg addrs k fb tmp j idx left i rule: fwdmsg_loop.induct)
  case (1 cfg addrs k fb tmp j idx left i)
  note byv = "1.prems"(1) and out = "1.prems"(2) and bnd = "1.prems"(3)
    and rd = "1.prems"(4) and ui = "1.prems"(5) and jb = "1.prems"(6) and tot = "1.prems"(7)
  show ?case
  proof (cases "i \<le> k \<and> left \<noteq> 0")
    case False
    then have "fwdmsg_loop cfg addrs k fb tmp j idx left i = Inr (fb, tmp, idx, left)"
      by (rule fwdmsg_loop_exit)
    with byv have "fb' = fb" "tmp' = tmp" "idx' = idx" "left' = left" by simp_all
    moreover have "fwdmsg_loop_at cfg k (length P) (P @ fb @ T) tmp (fp + 6 * j) idx left i =
        Inr (P @ fb @ T, tmp, idx, left)"
      using False by (rule fwdmsg_loop_at_exit)
    ultimately show ?thesis by simp
  next
    case True
    then have "unat i \<le> unat k" by (simp add: word_le_nat_alt)
    with ui have jk: "j < unat k" by simp
    have el_out: "outside (fp + 6 * j) 6 (length P) (length fb)"
      using out by (rule outside_sub) (use jk in simp_all)
    have el_bnd: "fp + 6 * j + 6 \<le> length P + length fb + length T"
      using bnd jk by simp
    have el_rd: "take 6 (drop (fp + 6 * j) (P @ X @ T)) = take 6 (ether_addr_octet (addrs ! j))"
      if "length X = length fb" for X
      using rd [OF that jk] by (cases "addrs ! j") simp
    show ?thesis
    proof (cases "ECTP_FWDMSG_SZ \<le> left")
      case full: True
      from byv True full obtain b fb1 where
        d: "fwdaddr_deref addrs j = Inr b"
        and s: "ectp_set_fwdmsg cfg fb (unat idx) b = Inr fb1"
        and r: "fwdmsg_loop cfg addrs k fb1 tmp (j + 1) (idx + ECTP_FWDMSG_SZ)
                  (left - ECTP_FWDMSG_SZ) (i + 1) = Inr (fb', tmp', idx', left')"
        by (subst (asm) fwdmsg_loop.simps) (auto split: sum.splits)
      from d have b: "b = ether_addr_octet (addrs ! j)"
        by (auto simp add: fwdaddr_deref_def split: if_splits)
      have e: "ectp_set_fwdmsg_at cfg (P @ fb @ T) (length P + unat idx) (fp + 6 * j) =
          Inr (P @ fb1 @ T) \<and> length fb1 = length fb"
        using s
      proof (rule ectp_set_fwdmsg_at_embed)
        show "take 6 (drop (fp + 6 * j) (P @ X @ T)) = take 6 b" if "length X = length fb" for X
          unfolding b using that by (rule el_rd)
        show "fp + 6 * j + 6 \<le> length P + length fb + length T" by (rule el_bnd)
        show "outside (fp + 6 * j) 6 (length P) (length fb)" by (rule el_out)
      qed
      then have l1: "length fb1 = length fb" by simp
      from full have l8: "8 \<le> unat left" by (simp add: word_le_nat_alt ECTP_FWDMSG_SZ_def)
      have ul: "unat (left - ECTP_FWDMSG_SZ) = unat left - 8"
        using l8 by (simp add: unat_sub word_le_nat_alt ECTP_FWDMSG_SZ_def)
      have uidx: "unat (idx + ECTP_FWDMSG_SZ) = unat idx + 8"
        using l8 tot by (simp add: unat_word_ariths ECTP_FWDMSG_SZ_def)
      have j29: "j < 2 ^ 29" using tot jb by simp
      have ui1: "unat (i + 1) = (j + 1) + 1"
        using j29 ui by (simp add: unat_word_ariths)
      have "fwdmsg_loop_at cfg k (length P) (P @ fb1 @ T) tmp (fp + 6 * (j + 1))
          (idx + ECTP_FWDMSG_SZ) (left - ECTP_FWDMSG_SZ) (i + 1) =
          Inr (P @ fb' @ T, tmp', idx', left') \<and> length fb' = length fb1"
      proof (rule "1.IH"(1) [OF True full d s r])
        show "outside fp (6 * unat k) (length P) (length fb1)" using out l1 by simp
        show "fp + 6 * unat k \<le> length P + length fb1 + length T" using bnd l1 by simp
        show "take 6 (drop (fp + 6 * j') (P @ X @ T)) = ether_addr_octet (addrs ! j')"
          if "length X = length fb1" "j' < unat k" for X j'
          using that l1 rd by simp
        show "unat (i + 1) = j + 1 + 1" by (rule ui1)
        show "8 * (j + 1) \<le> unat (idx + ECTP_FWDMSG_SZ)" using jb uidx by simp
        show "unat (idx + ECTP_FWDMSG_SZ) + unat (left - ECTP_FWDMSG_SZ) < 2 ^ 32"
          using tot l8 ul uidx by simp
      qed
      moreover have "fwdmsg_loop_at cfg k (length P) (P @ fb @ T) tmp (fp + 6 * j) idx left i =
          fwdmsg_loop_at cfg k (length P) (P @ fb1 @ T) tmp (fp + 6 * j + ETH_ALEN)
            (idx + ECTP_FWDMSG_SZ) (left - ECTP_FWDMSG_SZ) (i + 1)"
        using True full e by (intro fwdmsg_loop_at_full) simp_all
      moreover have "fp + 6 * j + ETH_ALEN = fp + 6 * (j + 1)" by (simp add: ETH_ALEN_def)
      ultimately show ?thesis using l1 by simp
    next
      case part: False
      from byv True part obtain b tmp1 fb1 where
        d: "fwdaddr_deref addrs j = Inr b"
        and s: "ectp_set_fwdmsg cfg tmp 0 b = Inr tmp1"
        and c: "memcpy fb (unat idx) tmp1 (unat left) = Inr fb1"
        and r: "fwdmsg_loop cfg addrs k fb1 tmp1 j idx 0 i = Inr (fb', tmp', idx', left')"
        by (subst (asm) fwdmsg_loop.simps) (auto split: sum.splits)
      from d have b: "b = ether_addr_octet (addrs ! j)"
        by (auto simp add: fwdaddr_deref_def split: if_splits)
      have "fwdmsg_loop cfg addrs k fb1 tmp1 j idx 0 i = Inr (fb1, tmp1, idx, 0)"
        by (rule fwdmsg_loop_exit) simp
      with r have res: "fb' = fb1" "tmp' = tmp1" "idx' = idx" "left' = 0" by simp_all
      have lb: "length b = 6" unfolding b by (cases "addrs ! j") simp
      have ld: "6 \<le> length (drop (fp + 6 * j) (P @ fb @ T))"
      proof -
        have "length (drop (fp + 6 * j) (P @ fb @ T)) =
            length P + length fb + length T - (fp + 6 * j)" by simp
        with el_bnd show ?thesis by linarith
      qed
      have t6: "take 6 (drop (fp + 6 * j) (P @ fb @ T)) = take 6 b"
        unfolding b by (rule el_rd) simp
      have lb6: "6 \<le> length b" using lb by simp
      have "ectp_set_fwdmsg cfg tmp 0 (drop (fp + 6 * j) (P @ fb @ T)) =
          ectp_set_fwdmsg cfg tmp 0 b"
        using t6 ld lb6 by (rule ectp_set_fwdmsg_take)
      with s have s': "ectp_set_fwdmsg cfg tmp 0 (drop (fp + 6 * j) (P @ fb @ T)) = Inr tmp1"
        by simp
      from c have c': "memcpy (P @ fb @ T) (length P + unat idx) tmp1 (unat left) =
          Inr (P @ fb1 @ T)" and l1: "length fb1 = length fb"
        using memcpy_embed by (blast+)
      have "fwdmsg_loop_at cfg k (length P) (P @ fb @ T) tmp (fp + 6 * j) idx left i =
          Inr (P @ fb1 @ T, tmp1, idx, 0)"
        using True part s' c' by (rule fwdmsg_loop_at_partial)
      with res l1 show ?thesis by simp
    qed
  qed
qed

lemma build_rplymsg_at_embed:
  assumes byv: "build_rplymsg cfg rcpt data p fb tmp idx left = Inr fb'"
    and out: "outside dp (unat p) (length P) (length fb)"
    and bnd: "dp + unat p \<le> length P + length fb + length T"
    and rd: "\<And>X. length X = length fb \<Longrightarrow>
           take (unat p) (drop dp (P @ X @ T)) = take (unat p) data"
  shows "build_rplymsg_at cfg rcpt dp p (length P) (P @ fb @ T) tmp idx left = Inr (P @ fb' @ T)"
proof (cases "left > ECTP_REPLYMSG_MINSZ")
  case True
  let ?left' = "left - ECTP_REPLYMSG_MINSZ"
  from byv True obtain fb1 where
    h: "ectp_set_rplymsg_hdr cfg fb (unat idx) rcpt = Inr fb1"
    and d: "(if ?left' \<ge> p then ectp_set_rplymsg_data fb1 (unat idx) data p
             else if ?left' > 0 then ectp_set_rplymsg_data fb1 (unat idx) data ?left'
             else Inr fb1) = Inr fb'"
    by (auto simp add: build_rplymsg_def Let_def split: sum.splits)
  from h have h': "ectp_set_rplymsg_hdr cfg (P @ fb @ T) (length P + unat idx) rcpt =
      Inr (P @ fb1 @ T)" and l1: "length fb1 = length fb"
    using ectp_set_rplymsg_hdr_embed by (blast+)
  have copy: "ectp_set_rplymsg_data_at (P @ fb1 @ T) (length P + unat idx) dp q =
      Inr (P @ fb' @ T)"
    if q: "ectp_set_rplymsg_data fb1 (unat idx) data q = Inr fb'" "unat q \<le> unat p" for q
    using q(1)
  proof (rule ectp_set_rplymsg_data_at_embed)
    have tt: "take (unat q) (take (unat p) xs) = take (unat q) xs" for xs :: mem
      using q(2) by (simp add: min_def)
    have "take (unat q) (drop dp (P @ fb1 @ T)) =
        take (unat q) (take (unat p) (drop dp (P @ fb1 @ T)))"
      by (simp only: tt)
    also have "\<dots> = take (unat q) (take (unat p) data)"
      by (simp only: rd [OF l1])
    also have "\<dots> = take (unat q) data" by (simp only: tt)
    finally show "take (unat q) (drop dp (P @ fb1 @ T)) = take (unat q) data" .
    show "dp + unat q \<le> length P + length fb1 + length T" using bnd q(2) l1 by simp
    show "outside dp (unat q) (length P) (length fb1)"
      unfolding l1 using out by (rule outside_sub) (use q(2) in simp_all)
  qed
  show ?thesis
  proof (cases "?left' \<ge> p")
    case fits: True
    with d have "ectp_set_rplymsg_data fb1 (unat idx) data p = Inr fb'" by simp
    then have "ectp_set_rplymsg_data_at (P @ fb1 @ T) (length P + unat idx) dp p =
        Inr (P @ fb' @ T)" by (rule copy) simp
    with True fits h' show ?thesis by (simp add: build_rplymsg_at_def Let_def)
  next
    case cut: False
    then have lp: "unat ?left' \<le> unat p" by (simp add: word_le_nat_alt)
    show ?thesis
    proof (cases "?left' > 0")
      case pos: True
      with d cut have "ectp_set_rplymsg_data fb1 (unat idx) data ?left' = Inr fb'" by simp
      then have "ectp_set_rplymsg_data_at (P @ fb1 @ T) (length P + unat idx) dp ?left' =
          Inr (P @ fb' @ T)" using lp by (rule copy)
      with True cut pos h' show ?thesis by (simp add: build_rplymsg_at_def Let_def)
    next
      case zero: False
      with d cut have "fb' = fb1" by simp
      with True cut zero h' show ?thesis by (simp add: build_rplymsg_at_def Let_def)
    qed
  qed
next
  case False
  from byv False obtain tmp1 where
    h: "ectp_set_rplymsg_hdr cfg tmp 0 rcpt = Inr tmp1"
    and c: "memcpy fb (unat idx) tmp1 (unat left) = Inr fb'"
    by (auto simp add: build_rplymsg_def split: sum.splits)
  from c have "memcpy (P @ fb @ T) (length P + unat idx) tmp1 (unat left) = Inr (P @ fb' @ T)"
    using memcpy_embed by blast
  with False h show ?thesis by (simp add: build_rplymsg_at_def)
qed

lemma ectp_build_frame_at_embed:
  assumes byv: "ectp_build_frame cfg tmp skipcount addrs k rcpt data p fb cap filler = Inr out"
    and fout: "outside fp (6 * unat k) (length P) (length fb)"
    and fbnd: "fp + 6 * unat k \<le> length P + length fb + length T"
    and frd: "\<And>X j. length X = length fb \<Longrightarrow> j < unat k \<Longrightarrow>
           take 6 (drop (fp + 6 * j) (P @ X @ T)) = ether_addr_octet (addrs ! j)"
    and dout: "outside dp (unat p) (length P) (length fb)"
    and dbnd: "dp + unat p \<le> length P + length fb + length T"
    and drd: "\<And>X. length X = length fb \<Longrightarrow>
           take (unat p) (drop dp (P @ X @ T)) = take (unat p) data"
  shows "ectp_build_frame_at cfg tmp skipcount fp k rcpt dp p (P @ fb @ T) (length P) cap filler =
           Inr (P @ out @ T)"
proof (cases "cap = 0")
  case True
  with byv show ?thesis by (simp add: ectp_build_frame_def ectp_build_frame_at_def Let_def)
next
  case nz: False
  from byv nz obtain fb0 where
    ms: "memset fb filler (unat cap) = Inr fb0"
    by (auto simp add: ectp_build_frame_def Let_def split: sum.splits)
  from ms have ms': "memset_at (P @ fb @ T) (length P) filler (unat cap) = Inr (P @ fb0 @ T)"
    and l0: "length fb0 = length fb"
    using memset_embed by (blast+)
  show ?thesis
  proof (cases "cap > ECTP_FRAME_HDR_SZ")
    case big: True
    from byv nz ms big obtain fb1 fb2 tmp2 idx2 left2 where
      sk: "ectp_set_skipcount cfg fb0 0 skipcount = Inr fb1"
      and lp: "fwdmsg_loop cfg addrs k fb1 tmp 0 (0 + ECTP_FRAME_HDR_SZ)
                 (cap - ECTP_FRAME_HDR_SZ) 1 = Inr (fb2, tmp2, idx2, left2)"
      and rp: "(if left2 = 0 then Inr fb2
                else build_rplymsg cfg rcpt data p fb2 tmp2 idx2 left2) = Inr out"
      by (auto simp add: ectp_build_frame_def Let_def split: sum.splits prod.splits)
    from sk have sk': "ectp_set_skipcount cfg (P @ fb0 @ T) (length P + 0) skipcount =
        Inr (P @ fb1 @ T)" and l1: "length fb1 = length fb0"
      using ectp_set_skipcount_embed by (blast+)
    from big have n2: "2 < unat cap" by (simp add: word_less_nat_alt ECTP_FRAME_HDR_SZ_def)
    have "fwdmsg_loop_at cfg k (length P) (P @ fb1 @ T) tmp (fp + 6 * 0)
        (0 + ECTP_FRAME_HDR_SZ) (cap - ECTP_FRAME_HDR_SZ) 1 =
        Inr (P @ fb2 @ T, tmp2, idx2, left2) \<and> length fb2 = length fb1"
      using lp
    proof (rule fwdmsg_loop_at_embed)
      show "outside fp (6 * unat k) (length P) (length fb1)" using fout l0 l1 by simp
      show "fp + 6 * unat k \<le> length P + length fb1 + length T" using fbnd l0 l1 by simp
      show "take 6 (drop (fp + 6 * j) (P @ X @ T)) = ether_addr_octet (addrs ! j)"
        if "length X = length fb1" "j < unat k" for X j
        using that l0 l1 frd by simp
      show "unat (1 :: uint) = 0 + 1" by simp
      show "8 * 0 \<le> unat (0 + ECTP_FRAME_HDR_SZ)" by simp
      have "unat (cap - ECTP_FRAME_HDR_SZ) = unat cap - 2"
        using n2 by (simp add: unat_sub word_le_nat_alt ECTP_FRAME_HDR_SZ_def)
      moreover have "unat cap < 2 ^ 32" using unsigned_less [of cap] by simp
      ultimately show "unat (0 + ECTP_FRAME_HDR_SZ) + unat (cap - ECTP_FRAME_HDR_SZ) < 2 ^ 32"
        using n2 by (simp add: ECTP_FRAME_HDR_SZ_def)
    qed
    then have lp': "fwdmsg_loop_at cfg k (length P) (P @ fb1 @ T) tmp fp
        (0 + ECTP_FRAME_HDR_SZ) (cap - ECTP_FRAME_HDR_SZ) 1 =
        Inr (P @ fb2 @ T, tmp2, idx2, left2)" and l2: "length fb2 = length fb1"
      by simp_all
    show ?thesis
    proof (cases "left2 = 0")
      case True
      with rp have "out = fb2" by simp
      with nz ms' big sk' lp' True show ?thesis
        by (simp add: ectp_build_frame_at_def Let_def)
    next
      case False
      with rp have "build_rplymsg cfg rcpt data p fb2 tmp2 idx2 left2 = Inr out" by simp
      then have "build_rplymsg_at cfg rcpt dp p (length P) (P @ fb2 @ T) tmp2 idx2 left2 =
          Inr (P @ out @ T)"
      proof (rule build_rplymsg_at_embed)
        show "outside dp (unat p) (length P) (length fb2)" using dout l0 l1 l2 by simp
        show "dp + unat p \<le> length P + length fb2 + length T" using dbnd l0 l1 l2 by simp
        show "take (unat p) (drop dp (P @ X @ T)) = take (unat p) data"
          if "length X = length fb2" for X
          using that l0 l1 l2 drd by simp
      qed
      with nz ms' big sk' lp' False show ?thesis
        by (simp add: ectp_build_frame_at_def Let_def)
    qed
  next
    case small: False
    from byv nz ms small obtain tmp1 where
      sk: "ectp_set_skipcount cfg tmp 0 skipcount = Inr tmp1"
      and cp: "memcpy fb0 0 tmp1 (unat cap) = Inr out"
      by (auto simp add: ectp_build_frame_def Let_def split: sum.splits)
    from cp have "memcpy (P @ fb0 @ T) (length P + 0) tmp1 (unat cap) = Inr (P @ out @ T)"
      using memcpy_embed by blast
    with nz ms' small sk show ?thesis
      by (simp add: ectp_build_frame_at_def Let_def)
  qed
qed

lemma take_6_drop:
  assumes "p + 6 \<le> length m"
  shows "take 6 (drop p m) = ether_addr_octet (ether_addr_at m p)"
proof (rule nth_equalityI)
  show "length (take 6 (drop p m)) = length (ether_addr_octet (ether_addr_at m p))"
    using assms by (simp add: ether_addr_at_def)
  fix i assume "i < length (take 6 (drop p m))"
  then have "i < 6" by simp
  then consider "i = 0" | "i = 1" | "i = 2" | "i = 3" | "i = 4" | "i = 5" by linarith
  then show "take 6 (drop p m) ! i = ether_addr_octet (ether_addr_at m p) ! i"
    using assms by cases (simp_all add: ether_addr_at_def)
qed

lemma ether_addrs_at_nth:
  "j < k \<Longrightarrow> ether_addrs_at m p k ! j = ether_addr_at m (p + 6 * j)"
  by (simp add: ether_addrs_at_def ETH_ALEN_def)

lemma length_ether_addrs_at: "length (ether_addrs_at m p k) = k"
  by (simp add: ether_addrs_at_def)

lemma ectp_build_frame_at_image:
  assumes cap: "a + unat cap \<le> length m"
    and ltmp: "length tmp = 8"
    and fbnd: "fp + 6 * unat k \<le> length m"
    and dbnd: "dp + unat p \<le> length m"
    and fout: "outside fp (6 * unat k) a (unat cap)"
    and dout: "outside dp (unat p) a (unat cap)"
  shows "ectp_build_frame_at cfg tmp skipcount fp k rcpt dp p m a cap filler =
     Inr (take a m @
          pad_to (unat cap) filler
            (logical_frame cfg skipcount (ether_addrs_at m fp (unat k)) k rcpt
               (take (unat p) (drop dp m)) p) @
          drop (a + unat cap) m)"
proof -
  let ?n = "unat cap"
  let ?P = "take a m" and ?fb = "take ?n (drop a m)" and ?T = "drop (a + ?n) m"
  let ?addrs = "ether_addrs_at m fp (unat k)"
  let ?data = "take (unat p) (drop dp m)"
  let ?out = "pad_to ?n filler (logical_frame cfg skipcount ?addrs k rcpt ?data p)"
  have lP: "length ?P = a" using cap by simp
  have lfb: "length ?fb = ?n" using cap by simp
  have m: "?P @ ?fb @ ?T = m"
    by (metis append_take_drop_id drop_drop add.commute)
  have byv: "ectp_build_frame cfg tmp skipcount ?addrs k rcpt ?data p ?fb cap filler =
      Inr (?out @ drop ?n ?fb)"
  proof (rule ectp_build_frame_image)
    show "?n \<le> length ?fb" using lfb by simp
    show "length tmp = 8" by (rule ltmp)
    show "unat k \<le> length ?addrs" by (simp add: length_ether_addrs_at)
    show "unat p \<le> length ?data" using dbnd by simp
  qed
  have "drop ?n ?fb = []" using lfb by simp
  with byv have byv': "ectp_build_frame cfg tmp skipcount ?addrs k rcpt ?data p ?fb cap filler =
      Inr ?out" by simp
  have "ectp_build_frame_at cfg tmp skipcount fp k rcpt dp p (?P @ ?fb @ ?T) (length ?P) cap filler =
      Inr (?P @ ?out @ ?T)"
    using byv'
  proof (rule ectp_build_frame_at_embed)
    show "outside fp (6 * unat k) (length ?P) (length ?fb)" using fout lP lfb by simp
    show "fp + 6 * unat k \<le> length ?P + length ?fb + length ?T" using fbnd cap by simp
    show "outside dp (unat p) (length ?P) (length ?fb)" using dout lP lfb by simp
    show "dp + unat p \<le> length ?P + length ?fb + length ?T" using dbnd cap by simp
    show "take (unat p) (drop dp (?P @ X @ ?T)) = take (unat p) ?data"
      if "length X = length ?fb" for X
    proof -
      have "take (unat p) (drop dp (?P @ X @ ?T)) = take (unat p) (drop dp (?P @ ?fb @ ?T))"
        using that
        by (intro read_outside) (use dout lP lfb in simp_all)
      then show ?thesis by (simp only: m) simp
    qed
    show "take 6 (drop (fp + 6 * j) (?P @ X @ ?T)) = ether_addr_octet (?addrs ! j)"
      if "length X = length ?fb" "j < unat k" for X j
    proof -
      have o: "outside (fp + 6 * j) 6 (length ?P) (length X)"
        unfolding that(1) lP lfb using fout by (rule outside_sub) (use that(2) in simp_all)
      have "take 6 (drop (fp + 6 * j) (?P @ X @ ?T)) =
          take 6 (drop (fp + 6 * j) (?P @ ?fb @ ?T))"
        using o that(1) [symmetric] by (rule read_outside)
      also have "\<dots> = take 6 (drop (fp + 6 * j) m)" by (simp only: m)
      also have "\<dots> = ether_addr_octet (ether_addr_at m (fp + 6 * j))"
        by (rule take_6_drop) (use fbnd that(2) in simp)
      finally show ?thesis using that(2) by (simp only: ether_addrs_at_nth)
    qed
  qed
  then show ?thesis by (simp only: m lP)
qed

text \<open>
  Claim C1, as stated: for every input and every capacity \<open>c\<close> with
  \<open>0 < c < ectp_calc_frame_size k p\<close> the capacity-\<open>c\<close> build is the first \<open>c\<close> bytes of the
  full-capacity build.  It fails when a source array lies inside the destination.  With
  no forward address, four data bytes \<open>A1 A2 A3 A4\<close> at address 2 and little-endian host:
  the build of capacity 7 into the buffer at address 10 ends in the data byte \<open>A1\<close>; the
  build of capacity \<open>ectp_calc_frame_size 0 4 = 10\<close> into the buffer at address 0, which
  holds the data, has overwritten the data by \<^verbatim>\<open>memset\<close> and the reply header before it
  copies them, and has \<open>01\<close> at byte 6.  The two \<^verbatim>\<open>memcpy\<close> regions \<open>[2, 6)\<close> and \<open>[6, 10)\<close>
  do not overlap.
\<close>

theorem ectp_build_frame_at_overlap:
  "(0 :: uint) < 7 \<and> (7 :: uint) < ectp_calc_frame_size 0 4 \<and>
   ectp_build_frame_at \<lparr>host_big_endian = False, ECTP_FWDMSG = 2, ECTP_RPLYMSG = 1\<rparr>
     [0, 0, 0, 0, 0, 0, 0, 0] 0x0108 0 0 0x1234 2 4
     [0, 0, 0xA1, 0xA2, 0xA3, 0xA4, 0, 0, 0, 0, 0, 0, 0, 0, 0, 0, 0] 10 7 0xFF =
     Inr [0, 0, 0xA1, 0xA2, 0xA3, 0xA4, 0, 0, 0, 0, 8, 1, 1, 0, 0x34, 0x12, 0xA1] \<and>
   ectp_build_frame_at \<lparr>host_big_endian = False, ECTP_FWDMSG = 2, ECTP_RPLYMSG = 1\<rparr>
     [0, 0, 0, 0, 0, 0, 0, 0] 0x0108 0 0 0x1234 2 4
     [0, 0, 0xA1, 0xA2, 0xA3, 0xA4, 0, 0, 0, 0, 0, 0, 0, 0, 0, 0, 0] 0
     (ectp_calc_frame_size 0 4) 0xFF =
     Inr [8, 1, 1, 0, 0x34, 0x12, 1, 0, 0x34, 0x12, 0, 0, 0, 0, 0, 0, 0] \<and>
   take 7 (drop 10 [0, 0, 0xA1, 0xA2, 0xA3, 0xA4, 0, 0, 0, 0, 8, 1, 1, 0, 0x34, 0x12,
                    0xA1 :: uint8_t]) \<noteq>
   take 7 (drop 0 [8, 1, 1, 0, 0x34, 0x12, 1, 0, 0x34, 0x12, 0, 0, 0, 0, 0, 0, 0 :: uint8_t])"
  by code_simp

text \<open>
  Claim C1, amended: truncation ordering for source arrays outside the destination.
  For every input whose forward-address array and data array lie in memory outside both
  destination buffers, and every capacity \<open>c\<close> with \<open>0 < c < ectp_calc_frame_size k p\<close>, the
  first \<open>c\<close> bytes that \<^verbatim>\<open>ectp_build_frame\<close> leaves in the buffer of capacity \<open>c\<close> are the first
  \<open>c\<close> bytes it leaves in the buffer of capacity \<open>ectp_calc_frame_size k p\<close>, and they are
  the first \<open>c\<close> bytes of the logical frame: the header, the forward records in array
  order, the reply header, the reply data.  So a field is begun only after the fields
  before it are complete, and the field that crosses byte \<open>c\<close> is written up to \<open>c\<close> and
  ends the build; no byte below \<open>c\<close> is left as filler.  When the size does not overflow,
  the full-capacity build is the whole logical frame.
\<close>

theorem ectp_build_frame_at_truncation:
  assumes "0 < c" and "c < ectp_calc_frame_size k p"
    and "buf_c + unat c \<le> length m"
    and "buf_full + unat (ectp_calc_frame_size k p) \<le> length m"
    and "length tmp_c = unat ECTP_FWDMSG_SZ" and "length tmp_full = unat ECTP_FWDMSG_SZ"
    and "fwdaddrs + ETH_ALEN * unat k \<le> length m" and "data + unat p \<le> length m"
    and "outside fwdaddrs (ETH_ALEN * unat k) buf_c (unat c)"
    and "outside data (unat p) buf_c (unat c)"
    and "outside fwdaddrs (ETH_ALEN * unat k) buf_full (unat (ectp_calc_frame_size k p))"
    and "outside data (unat p) buf_full (unat (ectp_calc_frame_size k p))"
  shows "\<exists>m_c m_full.
     ectp_build_frame_at cfg tmp_c skipcount fwdaddrs k rcpt_num data p m buf_c c filler =
       Inr m_c \<and>
     ectp_build_frame_at cfg tmp_full skipcount fwdaddrs k rcpt_num data p m buf_full
       (ectp_calc_frame_size k p) filler = Inr m_full \<and>
     take (unat c) (drop buf_c m_c) = take (unat c) (drop buf_full m_full) \<and>
     take (unat c) (drop buf_c m_c) =
       take (unat c) (logical_frame cfg skipcount (ether_addrs_at m fwdaddrs (unat k)) k
                        rcpt_num (take (unat p) (drop data m)) p) \<and>
     (2 + 8 * unat k + 4 + unat p < 2 ^ 32 \<longrightarrow>
        take (unat (ectp_calc_frame_size k p)) (drop buf_full m_full) =
          logical_frame cfg skipcount (ether_addrs_at m fwdaddrs (unat k)) k rcpt_num
            (take (unat p) (drop data m)) p)"
proof -
  let ?N = "ectp_calc_frame_size k p"
  let ?addrs = "ether_addrs_at m fwdaddrs (unat k)"
  let ?data = "take (unat p) (drop data m)"
  let ?F = "logical_frame cfg skipcount ?addrs k rcpt_num ?data p"
  let ?m_c = "take buf_c m @ pad_to (unat c) filler ?F @ drop (buf_c + unat c) m"
  let ?m_full = "take buf_full m @ pad_to (unat ?N) filler ?F @ drop (buf_full + unat ?N) m"
  have t8: "length tmp_c = 8" "length tmp_full = 8"
    using assms(5,6) by (simp_all add: ECTP_FWDMSG_SZ_def)
  have src: "fwdaddrs + 6 * unat k \<le> length m"
    "outside fwdaddrs (6 * unat k) buf_c (unat c)"
    "outside fwdaddrs (6 * unat k) buf_full (unat ?N)"
    using assms(7,9,11) by (simp_all add: ETH_ALEN_def)
  have rc: "ectp_build_frame_at cfg tmp_c skipcount fwdaddrs k rcpt_num data p m buf_c c filler =
      Inr ?m_c"
    using assms(3) t8(1) src(1) assms(8) src(2) assms(10) by (rule ectp_build_frame_at_image)
  have rf: "ectp_build_frame_at cfg tmp_full skipcount fwdaddrs k rcpt_num data p m buf_full
      ?N filler = Inr ?m_full"
    using assms(4) t8(2) src(1) assms(8) src(3) assms(12) by (rule ectp_build_frame_at_image)
  have lF: "length ?F = 2 + 8 * unat k + 4 + unat p"
    by (rule length_logical_frame) (use assms(8) in \<open>simp_all add: length_ether_addrs_at\<close>)
  have NF: "unat ?N \<le> length ?F"
    unfolding lF unat_calc_frame_size by (rule mod_less_eq_dividend)
  have cN: "unat c < unat ?N" using assms(2) by (simp add: word_less_nat_alt)
  have dc: "drop buf_c ?m_c = pad_to (unat c) filler ?F @ drop (buf_c + unat c) m"
    using assms(3) by simp
  have df: "drop buf_full ?m_full = pad_to (unat ?N) filler ?F @ drop (buf_full + unat ?N) m"
    using assms(4) by simp
  have pf: "pad_to (unat ?N) filler ?F = take (unat ?N) ?F"
    using NF by (rule pad_to_short')
  have pc: "pad_to (unat c) filler ?F = take (unat c) ?F"
    using NF cN by (intro pad_to_short') simp
  have a: "take (unat c) (drop buf_c ?m_c) = take (unat c) ?F"
    unfolding dc using NF cN by (simp add: pc)
  have b: "take (unat c) (drop buf_full ?m_full) = take (unat c) ?F"
    unfolding df using NF cN by (simp add: pf min_def)
  have d: "2 + 8 * unat k + 4 + unat p < 2 ^ 32 \<longrightarrow>
      take (unat ?N) (drop buf_full ?m_full) = ?F"
  proof
    assume "2 + 8 * unat k + 4 + unat p < 2 ^ 32"
    then have "unat ?N = length ?F" unfolding lF unat_calc_frame_size by simp
    then show "take (unat ?N) (drop buf_full ?m_full) = ?F"
      unfolding df by (simp add: pad_to_def)
  qed
  have ab: "take (unat c) (drop buf_c ?m_c) = take (unat c) (drop buf_full ?m_full)"
    by (simp only: a b)
  show ?thesis
  proof (intro exI conjI)
    show "ectp_build_frame_at cfg tmp_c skipcount fwdaddrs k rcpt_num data p m buf_c c filler =
      Inr ?m_c" by (rule rc)
    show "ectp_build_frame_at cfg tmp_full skipcount fwdaddrs k rcpt_num data p m buf_full ?N
      filler = Inr ?m_full" by (rule rf)
    show "take (unat c) (drop buf_c ?m_c) = take (unat c) (drop buf_full ?m_full)" by (rule ab)
    show "take (unat c) (drop buf_c ?m_c) = take (unat c) ?F" by (rule a)
    show "2 + 8 * unat k + 4 + unat p < 2 ^ 32 \<longrightarrow>
      take (unat ?N) (drop buf_full ?m_full) = ?F" by (rule d)
  qed
qed

theorem ectp_build_frame_at_truncation_witness:
  "(0 :: uint) < 13 \<and> (13 :: uint) < ectp_calc_frame_size 2 4 \<and>
   (46 :: nat) + unat (13 :: uint) \<le> length
     ([0x10, 0x11, 0x12, 0x13, 0x14, 0x15, 0x20, 0x21, 0x22, 0x23, 0x24, 0x25,
       0xA1, 0xA2, 0xA3, 0xA4, 7, 7, 7, 7] @ replicate 39 (0 :: uint8_t)) \<and>
   (20 :: nat) + unat (ectp_calc_frame_size 2 4) \<le> length
     ([0x10, 0x11, 0x12, 0x13, 0x14, 0x15, 0x20, 0x21, 0x22, 0x23, 0x24, 0x25,
       0xA1, 0xA2, 0xA3, 0xA4, 7, 7, 7, 7] @ replicate 39 (0 :: uint8_t)) \<and>
   length (replicate 8 (0x77 :: uint8_t)) = unat ECTP_FWDMSG_SZ \<and>
   length (replicate 8 (0xEE :: uint8_t)) = unat ECTP_FWDMSG_SZ \<and>
   (0 :: nat) + ETH_ALEN * unat (2 :: uint) \<le> length
     ([0x10, 0x11, 0x12, 0x13, 0x14, 0x15, 0x20, 0x21, 0x22, 0x23, 0x24, 0x25,
       0xA1, 0xA2, 0xA3, 0xA4, 7, 7, 7, 7] @ replicate 39 (0 :: uint8_t)) \<and>
   (12 :: nat) + unat (4 :: uint) \<le> length
     ([0x10, 0x11, 0x12, 0x13, 0x14, 0x15, 0x20, 0x21, 0x22, 0x23, 0x24, 0x25,
       0xA1, 0xA2, 0xA3, 0xA4, 7, 7, 7, 7] @ replicate 39 (0 :: uint8_t)) \<and>
   outside 0 (ETH_ALEN * unat (2 :: uint)) 46 (unat (13 :: uint)) \<and>
   outside 12 (unat (4 :: uint)) 46 (unat (13 :: uint)) \<and>
   outside 0 (ETH_ALEN * unat (2 :: uint)) 20 (unat (ectp_calc_frame_size 2 4)) \<and>
   outside 12 (unat (4 :: uint)) 20 (unat (ectp_calc_frame_size 2 4)) \<and>
   2 + 8 * unat (2 :: uint) + 4 + unat (4 :: uint) < (2 :: nat) ^ 32 \<and>
   (\<exists>m_c m_full.
      ectp_build_frame_at \<lparr>host_big_endian = False, ECTP_FWDMSG = 2, ECTP_RPLYMSG = 1\<rparr>
        (replicate 8 0x77) 0x0108 0 2 0x1234 12 4
        ([0x10, 0x11, 0x12, 0x13, 0x14, 0x15, 0x20, 0x21, 0x22, 0x23, 0x24, 0x25,
          0xA1, 0xA2, 0xA3, 0xA4, 7, 7, 7, 7] @ replicate 39 0) 46 13 0xFF = Inr m_c \<and>
      ectp_build_frame_at \<lparr>host_big_endian = False, ECTP_FWDMSG = 2, ECTP_RPLYMSG = 1\<rparr>
        (replicate 8 0xEE) 0x0108 0 2 0x1234 12 4
        ([0x10, 0x11, 0x12, 0x13, 0x14, 0x15, 0x20, 0x21, 0x22, 0x23, 0x24, 0x25,
          0xA1, 0xA2, 0xA3, 0xA4, 7, 7, 7, 7] @ replicate 39 0) 20
        (ectp_calc_frame_size 2 4) 0xFF = Inr m_full \<and>
      take 13 (drop 46 m_c) = [8, 1, 2, 0, 0x10, 0x11, 0x12, 0x13, 0x14, 0x15, 2, 0, 0x20] \<and>
      take 13 (drop 20 m_full) = [8, 1, 2, 0, 0x10, 0x11, 0x12, 0x13, 0x14, 0x15, 2, 0, 0x20] \<and>
      take 26 (drop 20 m_full) =
        [8, 1, 2, 0, 0x10, 0x11, 0x12, 0x13, 0x14, 0x15, 2, 0, 0x20, 0x21, 0x22, 0x23, 0x24,
         0x25, 1, 0, 0x34, 0x12, 0xA1, 0xA2, 0xA3, 0xA4])"
proof -
  let ?cfg = "\<lparr>host_big_endian = False, ECTP_FWDMSG = 2, ECTP_RPLYMSG = 1\<rparr>"
  let ?m = "[0x10, 0x11, 0x12, 0x13, 0x14, 0x15, 0x20, 0x21, 0x22, 0x23, 0x24, 0x25,
       0xA1, 0xA2, 0xA3, 0xA4, 7, 7, 7, 7] @ replicate 39 (0 :: uint8_t)"
  have N: "ectp_calc_frame_size 2 4 = 26"
    by (simp add: ectp_calc_frame_size_def ECTP_FRAME_HDR_SZ_def ECTP_FWDMSG_SZ_def
        ECTP_REPLYMSG_MINSZ_def)
  have h1: "(0 :: uint) < 13" by simp
  have h2: "(13 :: uint) < ectp_calc_frame_size 2 4" by (simp add: N)
  have h3: "(46 :: nat) + unat (13 :: uint) \<le> length ?m" by simp
  have h4: "(20 :: nat) + unat (ectp_calc_frame_size 2 4) \<le> length ?m" by (simp add: N)
  have h5: "length (replicate 8 (0x77 :: uint8_t)) = unat ECTP_FWDMSG_SZ"
    by (simp add: ECTP_FWDMSG_SZ_def)
  have h6: "length (replicate 8 (0xEE :: uint8_t)) = unat ECTP_FWDMSG_SZ"
    by (simp add: ECTP_FWDMSG_SZ_def)
  have h7: "(0 :: nat) + ETH_ALEN * unat (2 :: uint) \<le> length ?m" by (simp add: ETH_ALEN_def)
  have h8: "(12 :: nat) + unat (4 :: uint) \<le> length ?m" by simp
  have h9: "outside 0 (ETH_ALEN * unat (2 :: uint)) 46 (unat (13 :: uint))"
    by (simp add: outside_def ETH_ALEN_def)
  have h10: "outside 12 (unat (4 :: uint)) 46 (unat (13 :: uint))"
    by (simp add: outside_def)
  have h11: "outside 0 (ETH_ALEN * unat (2 :: uint)) 20 (unat (ectp_calc_frame_size 2 4))"
    by (simp add: outside_def ETH_ALEN_def N)
  have h12: "outside 12 (unat (4 :: uint)) 20 (unat (ectp_calc_frame_size 2 4))"
    by (simp add: outside_def N)
  have h13: "2 + 8 * unat (2 :: uint) + 4 + unat (4 :: uint) < (2 :: nat) ^ 32" by simp
  from ectp_build_frame_at_truncation [OF h1 h2 h3 h4 h5 h6 h7 h8 h9 h10 h11 h12,
      of ?cfg "0x0108" "0x1234" "0xFF"]
  obtain m_c m_full where
    c: "ectp_build_frame_at ?cfg (replicate 8 0x77) 0x0108 0 2 0x1234 12 4 ?m 46 13 0xFF =
          Inr m_c"
    and f: "ectp_build_frame_at ?cfg (replicate 8 0xEE) 0x0108 0 2 0x1234 12 4 ?m 20
          (ectp_calc_frame_size 2 4) 0xFF = Inr m_full"
    and t: "take (unat (13 :: uint)) (drop 46 m_c) = take (unat (13 :: uint)) (drop 20 m_full)"
    and l: "take (unat (13 :: uint)) (drop 46 m_c) =
          take (unat (13 :: uint))
            (logical_frame ?cfg 0x0108 (ether_addrs_at ?m 0 (unat (2 :: uint))) 2 0x1234
               (take (unat (4 :: uint)) (drop 12 ?m)) 4)"
    and e: "2 + 8 * unat (2 :: uint) + 4 + unat (4 :: uint) < 2 ^ 32 \<longrightarrow>
          take (unat (ectp_calc_frame_size 2 4)) (drop 20 m_full) =
            logical_frame ?cfg 0x0108 (ether_addrs_at ?m 0 (unat (2 :: uint))) 2 0x1234
               (take (unat (4 :: uint)) (drop 12 ?m)) 4"
    by blast
  have A: "ether_addrs_at ?m 0 (unat (2 :: uint)) =
      [Ether_addr 0x10 0x11 0x12 0x13 0x14 0x15, Ether_addr 0x20 0x21 0x22 0x23 0x24 0x25]"
    by code_simp
  have D: "take (unat (4 :: uint)) (drop 12 ?m) = [0xA1, 0xA2, 0xA3, 0xA4]"
    by code_simp
  have F: "logical_frame ?cfg 0x0108 (ether_addrs_at ?m 0 (unat (2 :: uint))) 2 0x1234
               (take (unat (4 :: uint)) (drop 12 ?m)) 4 =
      [8, 1, 2, 0, 0x10, 0x11, 0x12, 0x13, 0x14, 0x15, 2, 0, 0x20, 0x21, 0x22, 0x23, 0x24,
       0x25, 1, 0, 0x34, 0x12, 0xA1, 0xA2, 0xA3, 0xA4]"
    unfolding A D
    by (simp add: logical_frame_def skipcount_field_def fwdmsg_field_def rplymsg_hdr_field_def
        u16_host_bytes_def ectp_htons_def)
  from l have tc: "take 13 (drop 46 m_c) =
      [8, 1, 2, 0, 0x10, 0x11, 0x12, 0x13, 0x14, 0x15, 2, 0, 0x20]"
    unfolding F by simp
  with t have tf: "take 13 (drop 20 m_full) =
      [8, 1, 2, 0, 0x10, 0x11, 0x12, 0x13, 0x14, 0x15, 2, 0, 0x20]"
    by simp
  from e h13 have t26: "take 26 (drop 20 m_full) =
      [8, 1, 2, 0, 0x10, 0x11, 0x12, 0x13, 0x14, 0x15, 2, 0, 0x20, 0x21, 0x22, 0x23, 0x24,
       0x25, 1, 0, 0x34, 0x12, 0xA1, 0xA2, 0xA3, 0xA4]"
    unfolding F by (simp add: N)
  from c f tc tf t26 have "\<exists>m_c m_full.
      ectp_build_frame_at ?cfg (replicate 8 0x77) 0x0108 0 2 0x1234 12 4 ?m 46 13 0xFF =
        Inr m_c \<and>
      ectp_build_frame_at ?cfg (replicate 8 0xEE) 0x0108 0 2 0x1234 12 4 ?m 20
        (ectp_calc_frame_size 2 4) 0xFF = Inr m_full \<and>
      take 13 (drop 46 m_c) = [8, 1, 2, 0, 0x10, 0x11, 0x12, 0x13, 0x14, 0x15, 2, 0, 0x20] \<and>
      take 13 (drop 20 m_full) = [8, 1, 2, 0, 0x10, 0x11, 0x12, 0x13, 0x14, 0x15, 2, 0, 0x20] \<and>
      take 26 (drop 20 m_full) =
        [8, 1, 2, 0, 0x10, 0x11, 0x12, 0x13, 0x14, 0x15, 2, 0, 0x20, 0x21, 0x22, 0x23, 0x24,
         0x25, 1, 0, 0x34, 0x12, 0xA1, 0xA2, 0xA3, 0xA4]"
    by blast
  with h1 h2 h3 h4 h5 h6 h7 h8 h9 h10 h11 h12 h13 show ?thesis by (intro conjI)
qed

end
